theory Spec2Isabelle
  imports Main "HOL-Library.Word"
begin

section \<open>Protocol handler for the GCN socket connection (socket.py)\<close>

text \<open>
  A shallow embedding of \<^verbatim>\<open>gcn_classic_to_kafka/socket.py\<close>. Bytes are 8-bit words,
  Python integers are \<open>int\<close>, every exception the handler can meet is a value of
  \<open>error\<close>, and everything the handler mutates (the stream reader's buffer, the
  Prometheus metrics, the Kafka producer, the log, the stream writer) is a field
  of the record \<open>conn\<close>, passed in and returned.

  The stream is the list of bytes that the peer sends before it closes its end:
  \<open>readexactly\<close> never waits for ever, and the expiry of
  \<^verbatim>\<open>asyncio.wait_for\<close> is outside the model.
\<close>

subsection \<open>Bytes and \<^verbatim>\<open>struct.Struct("!l")\<close>\<close>

type_synonym byte = "8 word"
type_synonym bytes = "byte list"

definition bin_len :: nat where
  "bin_len = 160"

definition int4_size :: nat where
  "int4_size = 4"

text \<open>The unsigned value of a big-endian byte string.\<close>

definition be_uint :: "bytes \<Rightarrow> int" where
  "be_uint bs = foldl (\<lambda>a b. a * 256 + uint b) 0 bs"

text \<open>Two's complement reading of a 32-bit unsigned value (format character \<^verbatim>\<open>l\<close>).\<close>

definition signed32 :: "int \<Rightarrow> int" where
  "signed32 u = (if 2 ^ 31 \<le> u then u - 2 ^ 32 else u)"

text \<open>
  \<^verbatim>\<open>int4.unpack(b)\<close>: the buffer must hold exactly 4 bytes, else
  \<^verbatim>\<open>struct.error\<close> (\<open>None\<close>).
\<close>

definition int4_unpack :: "bytes \<Rightarrow> int option" where
  "int4_unpack bs = (if length bs = int4_size then Some (signed32 (be_uint bs)) else None)"

text \<open>
  \<^verbatim>\<open>int4.unpack_from(b)\<close>: reads the first 4 bytes of a buffer that holds at least 4,
  else \<^verbatim>\<open>struct.error\<close> (\<open>None\<close>).
\<close>

definition int4_unpack_from :: "bytes \<Rightarrow> int option" where
  "int4_unpack_from bs =
     (if int4_size \<le> length bs then Some (signed32 (be_uint (take int4_size bs))) else None)"

subsection \<open>Exceptions, log records and the state of a connection\<close>

datatype error =
    IncompleteReadError bytes nat  \<comment> \<open>\<^verbatim>\<open>asyncio.IncompleteReadError(partial, expected)\<close>\<close>
  | ValueError                     \<comment> \<open>\<^verbatim>\<open>readexactly\<close> of a negative size\<close>
  | StructError                    \<comment> \<open>\<^verbatim>\<open>struct.error\<close>\<close>
  | XMLSyntaxError                 \<comment> \<open>\<^verbatim>\<open>lxml.etree.fromstring\<close> on malformed XML\<close>
  | NoticeTypeError                \<comment> \<open>\<^verbatim>\<open>gcn.handlers.get_notice_type\<close> finding no integer packet type\<close>

datatype log_record =
    Debug_read nat int int         \<comment> \<open>"Read %d + %d + %d bytes"\<close>
  | Info_received int              \<comment> \<open>"Received notice of type 0x%08X"\<close>
  | Warning_differ int int         \<comment> \<open>"Binary (0x%08X) and VOEvent (0x%08X) notice types differ"\<close>
  | Info_connected string          \<comment> \<open>"Client connected from %s"\<close>
  | Info_closing string            \<comment> \<open>"Closing connection from %s"\<close>

record conn =
  reader :: bytes                              \<comment> \<open>the bytes not yet read; end of stream after them\<close>
  iamalive :: nat                              \<comment> \<open>\<^verbatim>\<open>metrics.iamalive\<close>\<close>
  received :: "int \<times> string \<times> string \<Rightarrow> nat"   \<comment> \<open>\<^verbatim>\<open>metrics.received\<close>, by labels\<close>
  connected :: int                             \<comment> \<open>\<^verbatim>\<open>metrics.connected\<close>\<close>
  produced :: "(string \<times> bytes) list"          \<comment> \<open>the calls \<^verbatim>\<open>producer.produce(topic, data)\<close>\<close>
  polls :: nat                                 \<comment> \<open>the calls \<^verbatim>\<open>producer.poll(0)\<close>\<close>
  log :: "log_record list"
  writer_closed :: bool

text \<open>
  What the module imports and this repository's sources do not hold: the three
  members of \<^verbatim>\<open>gcn.NoticeType\<close> in \<^verbatim>\<open>ignore_notice_types\<close>, lxml's parser
  (\<open>None\<close> when it raises on malformed XML), \<^verbatim>\<open>gcn.handlers.get_notice_type\<close>
  (\<open>None\<close> when it raises, on a document that has no \<^verbatim>\<open>Param\<close> named
  \<^verbatim>\<open>Packet_Type\<close> with an integer value), and the two functions of \<^verbatim>\<open>.common\<close>. They
  are parameters of the model; \<open>'x\<close> is the type of parsed documents. As at their
  interfaces, every code has a name, every name and flavor has a topic, and the
  producer takes every message it is given.
\<close>

record 'x deps =
  IM_ALIVE :: int
  VOE_11_IM_ALIVE :: int
  VOE_20_IM_ALIVE :: int
  fromstring :: "bytes \<Rightarrow> 'x option"
  get_notice_type :: "'x \<Rightarrow> int option"
  notice_type_int_to_str :: "int \<Rightarrow> string"
  topic_for_notice_type_str :: "string \<Rightarrow> string \<Rightarrow> string"

definition ignore_notice_types :: "'x deps \<Rightarrow> int set" where
  "ignore_notice_types d = {IM_ALIVE d, VOE_11_IM_ALIVE d, VOE_20_IM_ALIVE d}"

subsection \<open>The frame reader\<close>

text \<open>
  \<^verbatim>\<open>StreamReader.readexactly(n)\<close>: a negative size raises \<^verbatim>\<open>ValueError\<close>; when the
  stream ends before \<open>n\<close> bytes, the buffer is emptied into the exception's
  \<^verbatim>\<open>partial\<close>; otherwise the first \<open>n\<close> bytes are taken off the buffer.
\<close>

definition readexactly :: "int \<Rightarrow> conn \<Rightarrow> (error + bytes) \<times> conn" where
  "readexactly n c =
     (if n < 0 then (Inl ValueError, c)
      else if length (reader c) < nat n
        then (Inl (IncompleteReadError (reader c) (nat n)), c\<lparr>reader := []\<rparr>)
      else (Inr (take (nat n) (reader c)), c\<lparr>reader := drop (nat n) (reader c)\<rparr>))"

text \<open>One length-prefixed segment: lines 38-39 and 40-41 of the source.\<close>

definition read_segment :: "conn \<Rightarrow> (error + int \<times> bytes) \<times> conn" where
  "read_segment c =
     (case readexactly (int int4_size) c of
        (Inl e, c1) \<Rightarrow> (Inl e, c1)
      | (Inr len_bytes, c1) \<Rightarrow>
          (case int4_unpack len_bytes of
             None \<Rightarrow> (Inl StructError, c1)
           | Some seg_len \<Rightarrow>
               (case readexactly seg_len c1 of
                  (Inl e, c2) \<Rightarrow> (Inl e, c2)
                | (Inr seg_data, c2) \<Rightarrow> (Inr (seg_len, seg_data), c2))))"

definition read :: "conn \<Rightarrow> (error + bytes \<times> bytes \<times> bytes) \<times> conn" where
  "read c =
     (case readexactly (int bin_len) c of
        (Inl e, c1) \<Rightarrow> (Inl e, c1)
      | (Inr bin_data, c1) \<Rightarrow>
          (case read_segment c1 of
             (Inl e, c2) \<Rightarrow> (Inl e, c2)
           | (Inr (voe_len, voe_data), c2) \<Rightarrow>
               (case read_segment c2 of
                  (Inl e, c3) \<Rightarrow> (Inl e, c3)
                | (Inr (txt_len, txt_data), c3) \<Rightarrow>
                    (Inr (bin_data, voe_data, txt_data),
                     c3\<lparr>log := log c3 @ [Debug_read bin_len voe_len txt_len]\<rparr>))))"

subsection \<open>Processing one notice\<close>

text \<open>The body of the loop over the three flavors (lines 72-75).\<close>

definition produce_flavor :: "'x deps \<Rightarrow> conn \<Rightarrow> int \<times> bytes \<times> string \<Rightarrow> conn" where
  "produce_flavor d c item =
     (case item of (notice_type_int, data, flavor) \<Rightarrow>
        let notice_type_str = notice_type_int_to_str d notice_type_int;
            c1 = c\<lparr>received := (received c)((notice_type_int, notice_type_str, flavor) :=
                                   received c (notice_type_int, notice_type_str, flavor) + 1)\<rparr>;
            topic = topic_for_notice_type_str d notice_type_str flavor
        in c1\<lparr>produced := produced c1 @ [(topic, data)]\<rparr>)"

definition process :: "'x deps \<Rightarrow> conn \<Rightarrow> (error + unit) \<times> conn" where
  "process d c =
     (case read c of
        (Inl e, c1) \<Rightarrow> (Inl e, c1)
      | (Inr (bin_data, voe_data, txt_data), c1) \<Rightarrow>
          let c2 = c1\<lparr>iamalive := iamalive c1 + 1\<rparr> in
          (case int4_unpack_from bin_data of
             None \<Rightarrow> (Inl StructError, c2)
           | Some bin_notice_type \<Rightarrow>
               let c3 = c2\<lparr>log := log c2 @ [Info_received bin_notice_type]\<rparr> in
               if bin_notice_type \<in> ignore_notice_types d then (Inr (), c3)
               else
                 (case fromstring d voe_data of
                    None \<Rightarrow> (Inl XMLSyntaxError, c3)
                  | Some voe \<Rightarrow>
                      (case get_notice_type d voe of
                         None \<Rightarrow> (Inl NoticeTypeError, c3)
                       | Some voe_notice_type \<Rightarrow>
                           let c4 = (if bin_notice_type \<noteq> voe_notice_type
                                     then c3\<lparr>log := log c3 @
                                            [Warning_differ bin_notice_type voe_notice_type]\<rparr>
                                     else c3);
                               txt_notice_type = bin_notice_type;
                               c5 = foldl (produce_flavor d) c4
                                      [(bin_notice_type, bin_data, ''binary''),
                                       (voe_notice_type, voe_data, ''voevent''),
                                       (txt_notice_type, txt_data, ''text'')]
                           in (Inr (), c5\<lparr>polls := polls c5 + 1\<rparr>)))))"

subsection \<open>The connection\<close>

text \<open>
  \<^verbatim>\<open>while True: await process()\<close>: the loop has no exit of its own; it ends with
  the first exception of \<open>process\<close>, which it returns with the state reached.
\<close>

function process_loop :: "'x deps \<Rightarrow> conn \<Rightarrow> error \<times> conn" where
  "process_loop d c =
     (case process d c of
        (Inl e, c1) \<Rightarrow> (e, c1)
      | (Inr u, c1) \<Rightarrow> process_loop d c1)"
  by pat_completeness auto
termination
proof (relation "measure (\<lambda>(d, c). length (reader c))")
  show "wf (measure (\<lambda>(d :: 'x deps, c). length (reader c)))"
    by simp
next
  fix d :: "'x deps" and c :: conn and x1 c1 u
  assume "(x1, c1) = process d c" and ok: "x1 = Inr u"
  then have p: "process d c = (x1, c1)"
    by simp
  obtain r c0 where r: "readexactly (int bin_len) c = (r, c0)"
    by (cases "readexactly (int bin_len) c")
  from p ok r obtain bin_data where b: "r = Inr bin_data"
    by (cases r) (auto simp: process_def read_def)
  from r b have c0: "length (reader c0) < length (reader c)"
    by (auto simp: readexactly_def bin_len_def split: if_splits)
  have seg: "length (reader k') \<le> length (reader k)" if "read_segment k = (Inr v, k')" for k k' v
    using that
    by (auto simp: read_segment_def readexactly_def split: prod.splits sum.splits option.splits if_splits)
  from p ok r b have "length (reader c1) \<le> length (reader c0)"
    by (auto simp: process_def read_def produce_flavor_def Let_def
             split: prod.splits sum.splits option.splits if_splits dest!: seg)
  with c0 show "((d, c1), (d, c)) \<in> measure (\<lambda>(d, c). length (reader c))"
    by simp
qed

declare process_loop.simps [simp del]

text \<open>
  \<^verbatim>\<open>client_connected_cb\<close>: the gauge \<^verbatim>\<open>metrics.connected\<close> tracks the loop, and the
  \<^verbatim>\<open>finally\<close> clause logs and closes the writer before the exception leaves the
  callback.
\<close>

definition client_connected_cb :: "'x deps \<Rightarrow> string \<Rightarrow> conn \<Rightarrow> error \<times> conn" where
  "client_connected_cb d peer c =
     (let c1 = c\<lparr>log := log c @ [Info_connected peer]\<rparr>;
          c2 = c1\<lparr>connected := connected c1 + 1\<rparr>
      in case process_loop d c2 of
           (e, c3) \<Rightarrow>
             let c4 = c3\<lparr>connected := connected c3 - 1\<rparr>;
                 c5 = c4\<lparr>log := log c4 @ [Info_closing peer]\<rparr>
             in (e, c5\<lparr>writer_closed := True\<rparr>))"

subsection \<open>The sender's side of the wire format\<close>

text \<open>
  The handler only reads frames. For the properties that speak of the frame a
  sender encodes, \<open>int4_pack\<close> is \<^verbatim>\<open>int4.pack(n)\<close> (it raises \<^verbatim>\<open>struct.error\<close>, here
  \<open>None\<close>, outside the signed 32-bit range) and \<open>frame_bytes\<close> is the frame of the wire
  protocol: the binary block, then each of the VOEvent and the text segment behind
  its 4-byte big-endian signed length.
\<close>

definition int4_pack :: "int \<Rightarrow> bytes option" where
  "int4_pack n =
     (if - (2 ^ 31) \<le> n \<and> n < 2 ^ 31
      then (let u = n mod 2 ^ 32
            in Some [word_of_int (u div 2 ^ 24), word_of_int (u div 2 ^ 16),
                     word_of_int (u div 2 ^ 8), word_of_int u])
      else None)"

definition frame_bytes :: "bytes \<Rightarrow> bytes \<Rightarrow> bytes \<Rightarrow> bytes option" where
  "frame_bytes H V X =
     (case int4_pack (int (length V)) of
        None \<Rightarrow> None
      | Some l1 \<Rightarrow>
          (case int4_pack (int (length X)) of
             None \<Rightarrow> None
           | Some l2 \<Rightarrow> Some (H @ l1 @ V @ l2 @ X)))"

subsection \<open>Sample data\<close>

text \<open>
  A sample instance of the imported names, for evaluating the handler on concrete
  input: three sample codes for the members of \<^verbatim>\<open>gcn.NoticeType\<close>, a parser that
  accepts the three-byte documents \<^verbatim>\<open><t>\<close>, whose notice type is the byte \<open>t\<close>, and
  the document \<^verbatim>\<open><a/>\<close>, which has no notice type, and sample names and topics.
  \<open>sample_conn\<close> is a connection that has just been accepted, with the bytes its
  peer is going to send; \<open>sample_frame t V\<close> is a frame of type \<open>t\<close> with the VOEvent
  segment \<open>V\<close> (shorter than 256 bytes) and the text segment \<^verbatim>\<open>hi\<close>.
\<close>

definition sample_deps :: "int option deps" where
  "sample_deps =
     \<lparr>IM_ALIVE = 3, VOE_11_IM_ALIVE = 23, VOE_20_IM_ALIVE = 24,
      fromstring = (\<lambda>bs. if bs = [60, 97, 47, 62] then Some None
                         else case bs of
                                [a, t, b] \<Rightarrow> if a = 60 \<and> b = 62 then Some (Some (uint t)) else None
                              | _ \<Rightarrow> None),
      get_notice_type = (\<lambda>x. x),
      notice_type_int_to_str = (\<lambda>n. if n = 100 then ''N100'' else if n = 101 then ''N101'' else ''UNKNOWN''),
      topic_for_notice_type_str = (\<lambda>s flavor. ''gcn.classic.'' @ flavor @ ''.'' @ s)\<rparr>"

definition sample_conn :: "bytes \<Rightarrow> conn" where
  "sample_conn bs =
     \<lparr>reader = bs, iamalive = 0, received = (\<lambda>k. 0), connected = 0, produced = [], polls = 0,
      log = [], writer_closed = False\<rparr>"

definition sample_header :: "byte \<Rightarrow> bytes" where
  "sample_header t = [0, 0, 0, t] @ replicate 156 0"

definition sample_frame :: "byte \<Rightarrow> bytes \<Rightarrow> bytes" where
  "sample_frame t V =
     sample_header t @ [0, 0, 0, of_nat (length V)] @ V @ [0, 0, 0, 2] @ [104, 105]"

section \<open>Properties\<close>

subsection \<open>Packing and unpacking a length\<close>

lemma be_uint4: "be_uint [a, b, c, d] = ((uint a * 256 + uint b) * 256 + uint c) * 256 + uint d"
  by (simp add: be_uint_def)

lemma uint_byte: "uint (word_of_int k :: byte) = k mod 256"
  by (simp add: uint_word_of_int)

lemma split32:
  fixes u :: int
  assumes "0 \<le> u" "u < 4294967296"
  shows "((u div 16777216 mod 256 * 256 + u div 65536 mod 256) * 256 + u div 256 mod 256) * 256
           + u mod 256 = u"
proof -
  define a where "a = u div 256"
  define b where "b = a div 256"
  define c where "c = b div 256"
  have ua: "a * 256 + u mod 256 = u"
    by (simp add: a_def)
  have ab: "b * 256 + a mod 256 = a"
    by (simp add: b_def)
  have bc: "c * 256 + b mod 256 = b"
    by (simp add: c_def)
  have m: "0 \<le> u mod 256" "0 \<le> a mod 256" "0 \<le> b mod 256"
    by simp_all
  have "0 \<le> a"
    using assms(1) by (simp add: a_def pos_imp_zdiv_nonneg_iff)
  then have "0 \<le> b"
    by (simp add: b_def pos_imp_zdiv_nonneg_iff)
  then have c0: "0 \<le> c"
    by (simp add: c_def pos_imp_zdiv_nonneg_iff)
  have "c < 256"
    using ua ab bc m assms(2) by linarith
  with c0 have cm: "c mod 256 = c"
    by simp
  have d2: "u div 65536 = b"
    using zdiv_zmult2_eq[of 256 u 256] by (simp add: a_def b_def)
  have d3: "u div 16777216 = c"
    using zdiv_zmult2_eq[of 256 u 65536] d2 by (simp add: c_def)
  show ?thesis
    unfolding d2 d3 cm a_def[symmetric] by (simp only: bc ab ua)
qed

lemma signed32_mod:
  assumes "- 2147483648 \<le> n" "n < 2147483648"
  shows "signed32 (n mod 4294967296) = n"
proof (cases "0 \<le> n")
  case True
  with assms have "n mod 4294967296 = n"
    by simp
  with assms show ?thesis
    by (simp add: signed32_def)
next
  case False
  have "(n + 4294967296) mod 4294967296 = n + 4294967296"
    using False assms by (intro mod_pos_pos_trivial) simp_all
  then have "n mod 4294967296 = n + 4294967296"
    by simp
  with False assms show ?thesis
    by (simp add: signed32_def)
qed

lemma int4_pack_range: "int4_pack n = Some bs \<Longrightarrow> - 2147483648 \<le> n \<and> n < 2147483648"
  by (simp add: int4_pack_def split: if_splits)

lemma int4_pack_bytes:
  "int4_pack n = Some bs \<Longrightarrow> u = n mod 4294967296 \<Longrightarrow>
   bs = [word_of_int (u div 16777216), word_of_int (u div 65536),
         word_of_int (u div 256), word_of_int u]"
  by (simp add: int4_pack_def Let_def split: if_splits)

lemma int4_pack_length: "int4_pack n = Some bs \<Longrightarrow> length bs = 4"
  using int4_pack_bytes[of n bs "n mod 4294967296"] by simp

lemma be_uint_bytes:
  "0 \<le> u \<Longrightarrow> u < 4294967296 \<Longrightarrow>
   be_uint [word_of_int (u div 16777216), word_of_int (u div 65536),
            word_of_int (u div 256), word_of_int u] = u"
  by (simp only: be_uint4 uint_byte split32)

lemma unpack_pack:
  assumes "int4_pack n = Some bs"
  shows "int4_unpack bs = Some n"
proof -
  define u where "u = n mod 4294967296"
  have u: "0 \<le> u" "u < 4294967296"
    by (simp_all add: u_def)
  have bs: "bs = [word_of_int (u div 16777216), word_of_int (u div 65536),
                  word_of_int (u div 256), word_of_int u]"
    using assms u_def by (rule int4_pack_bytes)
  have "be_uint bs = u"
    unfolding bs using u by (rule be_uint_bytes)
  moreover have "signed32 u = n"
    unfolding u_def using int4_pack_range[OF assms] by (simp add: signed32_mod)
  moreover have "length bs = int4_size"
    using int4_pack_length[OF assms] by (simp add: int4_size_def)
  ultimately show ?thesis
    by (simp add: int4_unpack_def)
qed

subsection \<open>Reading a frame\<close>

lemma readexactly_full:
  "0 \<le> n \<Longrightarrow> length xs = nat n \<Longrightarrow> reader c = xs @ rest \<Longrightarrow>
   readexactly n c = (Inr xs, c\<lparr>reader := rest\<rparr>)"
  by (simp add: readexactly_def)

lemma readexactly_short:
  "0 \<le> n \<Longrightarrow> length (reader c) < nat n \<Longrightarrow>
   readexactly n c = (Inl (IncompleteReadError (reader c) (nat n)), c\<lparr>reader := []\<rparr>)"
  by (simp add: readexactly_def)

lemma read_segment_full:
  assumes "int4_pack (int (length V)) = Some l" and "reader c = l @ V @ rest"
  shows "read_segment c = (Inr (int (length V), V), c\<lparr>reader := rest\<rparr>)"
proof -
  have l: "length l = nat (int int4_size)"
    using int4_pack_length[OF assms(1)] by (simp add: int4_size_def)
  have 1: "readexactly (int int4_size) c = (Inr l, c\<lparr>reader := V @ rest\<rparr>)"
    by (rule readexactly_full[OF _ l assms(2)]) simp
  have 2: "readexactly (int (length V)) (c\<lparr>reader := V @ rest\<rparr>) = (Inr V, c\<lparr>reader := rest\<rparr>)"
    using readexactly_full[of "int (length V)" V "c\<lparr>reader := V @ rest\<rparr>" rest] by simp
  show ?thesis
    using 2 by (simp add: read_segment_def 1 unpack_pack[OF assms(1)])
qed

lemma read_segment_short:
  assumes "int4_pack (int (length V)) = Some l" and "m < 4 + length V"
    and "reader c = take m (l @ V)"
  shows "\<exists>p e. read_segment c = (Inl (IncompleteReadError p e), c\<lparr>reader := []\<rparr>)"
proof (cases "m < 4")
  case True
  have l: "length l = 4"
    using int4_pack_length[OF assms(1)] .
  have "length (reader c) = m"
    unfolding assms(3) using True l by simp
  with True show ?thesis
    by (simp add: read_segment_def readexactly_def int4_size_def)
next
  case False
  have l: "length l = 4"
    using int4_pack_length[OF assms(1)] .
  define ys where "ys = take (m - 4) V"
  have xs: "reader c = l @ ys"
    unfolding assms(3) ys_def using False l by simp
  have ys: "length ys < length V"
    using assms(2) False by (simp add: ys_def)
  have l': "length l = nat (int int4_size)"
    using l by (simp add: int4_size_def)
  have 1: "readexactly (int int4_size) c = (Inr l, c\<lparr>reader := ys\<rparr>)"
    using readexactly_full[OF _ l', of c ys] xs by simp
  have 2: "readexactly (int (length V)) (c\<lparr>reader := ys\<rparr>) =
      (Inl (IncompleteReadError ys (length V)), c\<lparr>reader := []\<rparr>)"
    using readexactly_short[of "int (length V)" "c\<lparr>reader := ys\<rparr>"] ys by simp
  have "read_segment c = (Inl (IncompleteReadError ys (length V)), c\<lparr>reader := []\<rparr>)"
    using 2 by (simp add: read_segment_def 1 unpack_pack[OF assms(1)])
  then show ?thesis
    by blast
qed

lemma frame_bytesD:
  assumes "frame_bytes H V X = Some bs"
  obtains l1 l2 where "int4_pack (int (length V)) = Some l1" "int4_pack (int (length X)) = Some l2"
    "bs = H @ l1 @ V @ l2 @ X"
  using assms by (auto simp: frame_bytes_def split: option.splits)

lemma read_frame:
  assumes H: "length H = bin_len" and fb: "frame_bytes H V X = Some bs"
    and rd: "reader c = bs @ rest"
  shows "read c = (Inr (H, V, X),
           c\<lparr>reader := rest,
             log := log c @ [Debug_read bin_len (int (length V)) (int (length X))]\<rparr>)"
proof -
  from fb obtain l1 l2 where l1: "int4_pack (int (length V)) = Some l1"
    and l2: "int4_pack (int (length X)) = Some l2" and bs: "bs = H @ l1 @ V @ l2 @ X"
    by (rule frame_bytesD)
  have 1: "readexactly (int bin_len) c = (Inr H, c\<lparr>reader := l1 @ V @ l2 @ X @ rest\<rparr>)"
    using readexactly_full[of "int bin_len" H c "l1 @ V @ l2 @ X @ rest"] H rd bs by simp
  have 2: "read_segment (c\<lparr>reader := l1 @ V @ l2 @ X @ rest\<rparr>) =
      (Inr (int (length V), V), c\<lparr>reader := l2 @ X @ rest\<rparr>)"
    using read_segment_full[OF l1, of "c\<lparr>reader := l1 @ V @ l2 @ X @ rest\<rparr>" "l2 @ X @ rest"]
    by simp
  have 3: "read_segment (c\<lparr>reader := l2 @ X @ rest\<rparr>) =
      (Inr (int (length X), X), c\<lparr>reader := rest\<rparr>)"
    using read_segment_full[OF l2, of "c\<lparr>reader := l2 @ X @ rest\<rparr>" rest]
    by simp
  show ?thesis
    by (simp add: read_def 1 2 3)
qed

lemma read_frame_prefix:
  assumes H: "length H = bin_len" and fb: "frame_bytes H V X = Some bs"
    and rd: "reader c = take k bs" and k: "k < length bs"
  shows "\<exists>p e. read c = (Inl (IncompleteReadError p e), c\<lparr>reader := []\<rparr>)"
proof -
  from fb obtain l1 l2 where l1: "int4_pack (int (length V)) = Some l1"
    and l2: "int4_pack (int (length X)) = Some l2" and bs: "bs = H @ l1 @ V @ l2 @ X"
    by (rule frame_bytesD)
  have n1: "length l1 = 4" and n2: "length l2 = 4"
    using int4_pack_length l1 l2 by blast+
  show ?thesis
  proof (cases "k < bin_len")
    case True
    then have "length (reader c) < nat (int bin_len)"
      using rd k by simp
    then show ?thesis
      using readexactly_short[of "int bin_len" c] by (simp add: read_def)
  next
    case False
    define xs where "xs = take (k - bin_len) (l1 @ V @ l2 @ X)"
    have r: "reader c = H @ xs"
      using False H rd bs by (simp add: xs_def)
    have 1: "readexactly (int bin_len) c = (Inr H, c\<lparr>reader := xs\<rparr>)"
      using readexactly_full[of "int bin_len" H c xs] H r by simp
    let ?c1 = "c\<lparr>reader := xs\<rparr>"
    show ?thesis
    proof (cases "k - bin_len < 4 + length V")
      case True
      have a: "k - bin_len < 4 + length V"
        using True .
      have "xs = take (k - bin_len) ((l1 @ V) @ (l2 @ X))"
        by (simp add: xs_def)
      also have "\<dots> = take (k - bin_len) (l1 @ V)"
        using True n1 by (simp del: append_assoc)
      finally have b: "reader ?c1 = take (k - bin_len) (l1 @ V)"
        by simp
      from read_segment_short[OF l1 a b]
      obtain p e where "read_segment ?c1 = (Inl (IncompleteReadError p e), ?c1\<lparr>reader := []\<rparr>)"
        by blast
      then show ?thesis
        by (simp add: read_def 1)
    next
      case False
      define ys where "ys = take (k - bin_len - 4 - length V) (l2 @ X)"
      have xs: "xs = l1 @ V @ ys"
        using False n1 by (simp add: xs_def ys_def)
      have 2: "read_segment ?c1 = (Inr (int (length V), V), ?c1\<lparr>reader := ys\<rparr>)"
        using read_segment_full[OF l1, of ?c1 ys] xs by simp
      let ?c2 = "c\<lparr>reader := ys\<rparr>"
      have kk: "k - bin_len - 4 - length V < 4 + length X"
        using k H n1 n2 by (simp add: bs)
      have b: "reader ?c2 = take (k - bin_len - 4 - length V) (l2 @ X)"
        by (simp add: ys_def)
      from read_segment_short[OF l2 kk b]
      obtain p e where "read_segment ?c2 = (Inl (IncompleteReadError p e), ?c2\<lparr>reader := []\<rparr>)"
        by blast
      then show ?thesis
        using 2 by (simp add: read_def 1)
    qed
  qed
qed

subsection \<open>The samples\<close>

lemma sample_header_length: "length (sample_header t) = bin_len"
  by (simp add: sample_header_def bin_len_def)

lemma sample_frame_bytes:
  assumes "length V < 256"
  shows "frame_bytes (sample_header t) V [104, 105] = Some (sample_frame t V)"
proof -
  have "int4_pack (int (length V)) = Some [0, 0, 0, of_nat (length V)]"
    using assms by (simp add: int4_pack_def)
  then show ?thesis
    by (simp add: frame_bytes_def int4_pack_def sample_frame_def)
qed

lemma sample_header_type: "int4_unpack_from (sample_header t) = Some (uint t)"
proof -
  have "uint t < 256"
    using uint_lt2p[of t] by simp
  then show ?thesis
    by (simp add: int4_unpack_from_def int4_size_def sample_header_def be_uint_def signed32_def)
qed

lemma process_loop_step:
  "process d c = (Inr (), c1) \<Longrightarrow> process_loop d c = process_loop d c1"
  by (subst process_loop.simps) simp

lemma process_loop_stop:
  "process d c = (Inl e, c1) \<Longrightarrow> process_loop d c = (e, c1)"
  by (subst process_loop.simps) simp

subsection \<open>One step of the loop and the whole connection\<close>

lemma header_type:
  assumes "length H = bin_len"
  shows "int4_unpack_from H = Some (signed32 (be_uint (take int4_size H)))"
  using assms by (simp add: int4_unpack_from_def int4_size_def bin_len_def)

lemma process_short:
  assumes "length (reader c) < bin_len"
  shows "process d c = (Inl (IncompleteReadError (reader c) bin_len), c\<lparr>reader := []\<rparr>)"
  using assms readexactly_short[of "int bin_len" c] by (simp add: process_def read_def)

lemma process_loop_short:
  assumes "length (reader c) < bin_len"
  shows "process_loop d c = (IncompleteReadError (reader c) bin_len, c\<lparr>reader := []\<rparr>)"
  using process_short[OF assms] by (rule process_loop_stop)

lemma process_heartbeat:
  assumes "length H = bin_len" and "frame_bytes H V X = Some bs" and "reader c = bs @ rest"
    and "int4_unpack_from H = Some ty" and "ty \<in> ignore_notice_types d"
  shows "process d c = (Inr (),
      c\<lparr>reader := rest, iamalive := iamalive c + 1,
        log := log c @ [Debug_read bin_len (int (length V)) (int (length X)), Info_received ty]\<rparr>)"
  using read_frame[OF assms(1-3)] assms(4,5) by (simp add: process_def)

lemma process_notice:
  assumes "length H = bin_len" and "frame_bytes H V X = Some bs" and "reader c = bs @ rest"
    and "int4_unpack_from H = Some ty" and "ty \<notin> ignore_notice_types d"
    and "fromstring d V = Some voe" and "get_notice_type d voe = Some vt"
  shows "\<exists>c1. process d c = (Inr (), c1) \<and> reader c1 = rest \<and>
           iamalive c1 = iamalive c + 1 \<and>
           produced c1 = produced c @
             [(topic_for_notice_type_str d (notice_type_int_to_str d ty) ''binary'', H),
              (topic_for_notice_type_str d (notice_type_int_to_str d vt) ''voevent'', V),
              (topic_for_notice_type_str d (notice_type_int_to_str d ty) ''text'', X)]"
  using read_frame[OF assms(1-3)] assms(4-7)
  by (simp add: process_def produce_flavor_def Let_def)

lemma client_connected_cb_loop:
  assumes "process_loop d (c\<lparr>log := log c @ [Info_connected peer],
                              connected := connected c + 1\<rparr>) = (e, c3)"
  shows "client_connected_cb d peer c =
           (e, c3\<lparr>connected := connected c3 - 1, log := log c3 @ [Info_closing peer],
                 writer_closed := True\<rparr>)"
  using assms by (simp add: client_connected_cb_def Let_def)

lemma heartbeat_then_short:
  assumes "length H = bin_len" and "frame_bytes H V X = Some bs" and "reader c = bs @ rest"
    and "int4_unpack_from H = Some ty" and "ty \<in> ignore_notice_types d"
    and "length rest < bin_len"
  shows "process_loop d c = (IncompleteReadError rest bin_len,
      c\<lparr>reader := [], iamalive := iamalive c + 1,
        log := log c @ [Debug_read bin_len (int (length V)) (int (length X)), Info_received ty]\<rparr>)"
proof -
  let ?c1 = "c\<lparr>reader := rest, iamalive := iamalive c + 1,
        log := log c @ [Debug_read bin_len (int (length V)) (int (length X)), Info_received ty]\<rparr>"
  have "process_loop d c = process_loop d ?c1"
    using process_heartbeat[OF assms(1-5)] by (rule process_loop_step)
  also have "\<dots> = (IncompleteReadError (reader ?c1) bin_len, ?c1\<lparr>reader := []\<rparr>)"
    by (rule process_loop_short) (use assms(6) in simp)
  finally show ?thesis
    by simp
qed

lemma notice_then_short:
  assumes "length H = bin_len" and "frame_bytes H V X = Some bs" and "reader c = bs @ rest"
    and "int4_unpack_from H = Some ty" and "ty \<notin> ignore_notice_types d"
    and "fromstring d V = Some voe" and "get_notice_type d voe = Some vt"
    and "length rest < bin_len"
  shows "fst (process_loop d c) = IncompleteReadError rest bin_len \<and>
         produced (snd (process_loop d c)) = produced c @
             [(topic_for_notice_type_str d (notice_type_int_to_str d ty) ''binary'', H),
              (topic_for_notice_type_str d (notice_type_int_to_str d vt) ''voevent'', V),
              (topic_for_notice_type_str d (notice_type_int_to_str d ty) ''text'', X)]"
proof -
  from process_notice[OF assms(1-7)] obtain c1 where p: "process d c = (Inr (), c1)"
    and r: "reader c1 = rest"
    and pr: "produced c1 = produced c @
             [(topic_for_notice_type_str d (notice_type_int_to_str d ty) ''binary'', H),
              (topic_for_notice_type_str d (notice_type_int_to_str d vt) ''voevent'', V),
              (topic_for_notice_type_str d (notice_type_int_to_str d ty) ''text'', X)]"
    by blast
  have "process_loop d c = process_loop d c1"
    using p by (rule process_loop_step)
  also have "\<dots> = (IncompleteReadError (reader c1) bin_len, c1\<lparr>reader := []\<rparr>)"
    by (rule process_loop_short) (use assms(8) r in simp)
  finally show ?thesis
    using r pr by simp
qed

lemma client_connected_cb_proj:
  "fst (client_connected_cb d peer c) =
     fst (process_loop d (c\<lparr>log := log c @ [Info_connected peer], connected := connected c + 1\<rparr>))"
  "produced (snd (client_connected_cb d peer c)) =
     produced (snd (process_loop d (c\<lparr>log := log c @ [Info_connected peer],
                                        connected := connected c + 1\<rparr>)))"
  "iamalive (snd (client_connected_cb d peer c)) =
     iamalive (snd (process_loop d (c\<lparr>log := log c @ [Info_connected peer],
                                        connected := connected c + 1\<rparr>)))"
  "writer_closed (snd (client_connected_cb d peer c))"
  by (simp_all add: client_connected_cb_def Let_def case_prod_beta)

lemma cb_heartbeat_then_short:
  assumes "length H = bin_len" and "frame_bytes H V X = Some bs" and "reader c = bs @ rest"
    and "int4_unpack_from H = Some ty" and "ty \<in> ignore_notice_types d"
    and "length rest < bin_len"
  shows "fst (client_connected_cb d peer c) = IncompleteReadError rest bin_len \<and>
         produced (snd (client_connected_cb d peer c)) = produced c \<and>
         iamalive (snd (client_connected_cb d peer c)) = iamalive c + 1"
proof -
  let ?c2 = "c\<lparr>log := log c @ [Info_connected peer], connected := connected c + 1\<rparr>"
  have "reader ?c2 = bs @ rest"
    using assms(3) by simp
  from heartbeat_then_short[OF assms(1,2) this assms(4-6)] show ?thesis
    by (simp add: client_connected_cb_proj)
qed

lemma cb_heartbeat_then_notice:
  assumes "length H = bin_len" and "frame_bytes H V X = Some bs" and "reader c = bs @ rest"
    and "int4_unpack_from H = Some ty" and "ty \<in> ignore_notice_types d"
    and "length H2 = bin_len" and "frame_bytes H2 V2 X2 = Some bs2" and "rest = bs2 @ rest2"
    and "int4_unpack_from H2 = Some ty2" and "ty2 \<notin> ignore_notice_types d"
    and "fromstring d V2 = Some voe2" and "get_notice_type d voe2 = Some vt2"
    and "length rest2 < bin_len"
  shows "fst (client_connected_cb d peer c) = IncompleteReadError rest2 bin_len \<and>
         produced (snd (client_connected_cb d peer c)) = produced c @
           [(topic_for_notice_type_str d (notice_type_int_to_str d ty2) ''binary'', H2),
            (topic_for_notice_type_str d (notice_type_int_to_str d vt2) ''voevent'', V2),
            (topic_for_notice_type_str d (notice_type_int_to_str d ty2) ''text'', X2)]"
proof -
  let ?c2 = "c\<lparr>log := log c @ [Info_connected peer], connected := connected c + 1\<rparr>"
  let ?c3 = "?c2\<lparr>reader := rest, iamalive := iamalive ?c2 + 1,
        log := log ?c2 @ [Debug_read bin_len (int (length V)) (int (length X)), Info_received ty]\<rparr>"
  have "reader ?c2 = bs @ rest"
    using assms(3) by simp
  from process_heartbeat[OF assms(1,2) this assms(4,5)]
  have 1: "process_loop d ?c2 = process_loop d ?c3"
    by (rule process_loop_step)
  have "reader ?c3 = bs2 @ rest2"
    using assms(8) by simp
  from notice_then_short[OF assms(6,7) this assms(9-13)] 1 show ?thesis
    by (simp add: client_connected_cb_proj)
qed

lemma read_short_voevent:
  assumes "length H = bin_len" and "int4_unpack l = Some n" and "0 \<le> n"
    and "length rest < nat n" and "reader c = H @ l @ rest"
  shows "read c = (Inl (IncompleteReadError rest (nat n)), c\<lparr>reader := []\<rparr>)"
proof -
  have l: "length l = nat (int int4_size)"
    using assms(2) by (simp add: int4_unpack_def split: if_splits)
  have H: "length H = nat (int bin_len)"
    using assms(1) by simp
  have a: "readexactly (int bin_len) c = (Inr H, c\<lparr>reader := l @ rest\<rparr>)"
    using readexactly_full[OF _ H assms(5)] by simp
  have 1: "readexactly (int int4_size) (c\<lparr>reader := l @ rest\<rparr>) = (Inr l, c\<lparr>reader := rest\<rparr>)"
    using readexactly_full[OF _ l, where c = "c\<lparr>reader := l @ rest\<rparr>" and rest = rest] by simp
  have 2: "readexactly n (c\<lparr>reader := rest\<rparr>)
      = (Inl (IncompleteReadError rest (nat n)), c\<lparr>reader := []\<rparr>)"
    using readexactly_short[OF assms(3), of "c\<lparr>reader := rest\<rparr>"] assms(4) by simp
  have "read_segment (c\<lparr>reader := l @ rest\<rparr>)
      = (Inl (IncompleteReadError rest (nat n)), c\<lparr>reader := []\<rparr>)"
    using 2 by (simp add: read_segment_def 1 assms(2))
  then show ?thesis
    by (simp add: read_def a)
qed

lemma read_short_text:
  assumes "length H = bin_len" and "int4_unpack l = Some n" and "0 \<le> n"
    and "length rest < nat n" and "int4_pack (int (length V)) = Some l1"
    and "reader c = H @ l1 @ V @ l @ rest"
  shows "read c = (Inl (IncompleteReadError rest (nat n)), c\<lparr>reader := []\<rparr>)"
proof -
  have l: "length l = nat (int int4_size)"
    using assms(2) by (simp add: int4_unpack_def split: if_splits)
  have H: "length H = nat (int bin_len)"
    using assms(1) by simp
  have a: "readexactly (int bin_len) c = (Inr H, c\<lparr>reader := l1 @ V @ l @ rest\<rparr>)"
    using readexactly_full[OF _ H assms(6)] by simp
  have v: "read_segment (c\<lparr>reader := l1 @ V @ l @ rest\<rparr>)
      = (Inr (int (length V), V), c\<lparr>reader := l @ rest\<rparr>)"
    using read_segment_full[OF assms(5), where c = "c\<lparr>reader := l1 @ V @ l @ rest\<rparr>"
        and rest = "l @ rest"]
    by simp
  have 1: "readexactly (int int4_size) (c\<lparr>reader := l @ rest\<rparr>) = (Inr l, c\<lparr>reader := rest\<rparr>)"
    using readexactly_full[OF _ l, where c = "c\<lparr>reader := l @ rest\<rparr>" and rest = rest] by simp
  have 2: "readexactly n (c\<lparr>reader := rest\<rparr>)
      = (Inl (IncompleteReadError rest (nat n)), c\<lparr>reader := []\<rparr>)"
    using readexactly_short[OF assms(3), of "c\<lparr>reader := rest\<rparr>"] assms(4) by simp
  have "read_segment (c\<lparr>reader := l @ rest\<rparr>)
      = (Inl (IncompleteReadError rest (nat n)), c\<lparr>reader := []\<rparr>)"
    using 2 by (simp add: read_segment_def 1 assms(2))
  then show ?thesis
    by (simp add: read_def a v)
qed

lemma cb_read_error:
  assumes "\<And>k. reader k = reader c \<Longrightarrow> read k = (Inl e, k\<lparr>reader := []\<rparr>)"
  shows "fst (client_connected_cb d peer c) = e \<and> writer_closed (snd (client_connected_cb d peer c))"
proof -
  let ?c2 = "c\<lparr>log := log c @ [Info_connected peer], connected := connected c + 1\<rparr>"
  have "read ?c2 = (Inl e, ?c2\<lparr>reader := []\<rparr>)"
    by (rule assms) simp
  then have "process d ?c2 = (Inl e, ?c2\<lparr>reader := []\<rparr>)"
    by (simp add: process_def)
  then have "process_loop d ?c2 = (e, ?c2\<lparr>reader := []\<rparr>)"
    by (rule process_loop_stop)
  then show ?thesis
    by (simp add: client_connected_cb_proj)
qed

subsection \<open>Publishing a notice\<close>

text \<open>
  A VOEvent segment that parses does not yet give three publishes: the document
  \<^verbatim>\<open><a/>\<close> is well-formed and has no packet type, so \<^verbatim>\<open>get_notice_type\<close> raises
  on line 55, before the loop over the flavors, and nothing is produced.
\<close>

theorem extraction_failure_counterexample:
  "100 \<notin> ignore_notice_types sample_deps \<and>
   fromstring sample_deps [60, 97, 47, 62] = Some None \<and>
   fst (process sample_deps (sample_conn (sample_frame 100 [60, 97, 47, 62])))
     = Inl NoticeTypeError \<and>
   produced (snd (process sample_deps (sample_conn (sample_frame 100 [60, 97, 47, 62])))) = []"
proof -
  have h1: "length (sample_header 100) = bin_len"
    by (rule sample_header_length)
  have h2: "frame_bytes (sample_header 100) [60, 97, 47, 62] [104, 105]
              = Some (sample_frame 100 [60, 97, 47, 62])"
    by (rule sample_frame_bytes) simp
  have h3: "reader (sample_conn (sample_frame 100 [60, 97, 47, 62]))
              = sample_frame 100 [60, 97, 47, 62] @ []"
    by (simp add: sample_conn_def)
  have h4: "int4_unpack_from (sample_header 100) = Some 100"
    using sample_header_type[of 100] by simp
  have h5: "100 \<notin> ignore_notice_types sample_deps"
    by (simp add: ignore_notice_types_def sample_deps_def)
  have h6: "fromstring sample_deps [60, 97, 47, 62] = Some None"
    by (simp add: sample_deps_def)
  have h7: "get_notice_type sample_deps None = None"
    by (simp add: sample_deps_def)
  have "process sample_deps (sample_conn (sample_frame 100 [60, 97, 47, 62])) =
      (Inl NoticeTypeError, (sample_conn (sample_frame 100 [60, 97, 47, 62]))
         \<lparr>reader := [], iamalive := 1, log := [Debug_read bin_len 4 2, Info_received 100]\<rparr>)"
    using read_frame[OF h1 h2 h3] h4 h5 h6 h7 by (simp add: process_def sample_conn_def)
  with h5 h6 show ?thesis
    by (simp add: sample_conn_def)
qed

text \<open>
  C1, as the code has it. A frame whose binary type code is not in
  \<open>ignore_notice_types\<close>, whose VOEvent segment parses and whose document yields a
  notice type makes \<open>process\<close> return normally after exactly three calls of
  \<^verbatim>\<open>producer.produce\<close>, in the order binary, voevent, text: each with that flavor's
  segment as payload, to the topic that \<open>topic_for_notice_type_str\<close> gives for the
  flavor and the name of that flavor's notice type (the binary code for binary and
  text, the code taken from the document for voevent).
\<close>

theorem three_publishes:
  assumes "length H = bin_len" and "frame_bytes H V X = Some bs" and "reader c = bs @ rest"
    and "int4_unpack_from H = Some ty" and "ty \<notin> ignore_notice_types d"
    and "fromstring d V = Some voe" and "get_notice_type d voe = Some vt"
  shows "fst (process d c) = Inr () \<and>
         produced (snd (process d c)) = produced c @
           [(topic_for_notice_type_str d (notice_type_int_to_str d ty) ''binary'', H),
            (topic_for_notice_type_str d (notice_type_int_to_str d vt) ''voevent'', V),
            (topic_for_notice_type_str d (notice_type_int_to_str d ty) ''text'', X)]"
  using read_frame[OF assms(1-3)] assms(4-7)
  by (simp add: process_def produce_flavor_def Let_def)

theorem three_publishes_witness:
  "length (sample_header 100) = bin_len \<and>
   frame_bytes (sample_header 100) [60, 100, 62] [104, 105] = Some (sample_frame 100 [60, 100, 62]) \<and>
   reader (sample_conn (sample_frame 100 [60, 100, 62])) = sample_frame 100 [60, 100, 62] @ [] \<and>
   int4_unpack_from (sample_header 100) = Some 100 \<and>
   100 \<notin> ignore_notice_types sample_deps \<and>
   fromstring sample_deps [60, 100, 62] = Some (Some 100) \<and>
   get_notice_type sample_deps (Some 100) = Some 100 \<and>
   fst (process sample_deps (sample_conn (sample_frame 100 [60, 100, 62]))) = Inr () \<and>
   produced (snd (process sample_deps (sample_conn (sample_frame 100 [60, 100, 62])))) =
     [(''gcn.classic.binary.N100'', sample_header 100),
      (''gcn.classic.voevent.N100'', [60, 100, 62]),
      (''gcn.classic.text.N100'', [104, 105])]"
proof -
  have h1: "length (sample_header 100) = bin_len"
    by (rule sample_header_length)
  have h2: "frame_bytes (sample_header 100) [60, 100, 62] [104, 105]
              = Some (sample_frame 100 [60, 100, 62])"
    by (rule sample_frame_bytes) simp
  have h3: "reader (sample_conn (sample_frame 100 [60, 100, 62])) = sample_frame 100 [60, 100, 62] @ []"
    by (simp add: sample_conn_def)
  have h4: "int4_unpack_from (sample_header 100) = Some 100"
    using sample_header_type[of 100] by simp
  have h5: "100 \<notin> ignore_notice_types sample_deps"
    by (simp add: ignore_notice_types_def sample_deps_def)
  have h6: "fromstring sample_deps [60, 100, 62] = Some (Some 100)"
    by (simp add: sample_deps_def)
  have h7: "get_notice_type sample_deps (Some 100) = Some 100"
    by (simp add: sample_deps_def)
  from three_publishes[OF h1 h2 h3 h4 h5 h6 h7] h1 h2 h3 h4 h5 h6 h7 show ?thesis
    by (simp add: sample_deps_def sample_conn_def)
qed

subsection \<open>The frame reader on whole and on cut frames\<close>

text \<open>
  C3. Round trip of the frame reader: for a 160-byte header \<open>H\<close>, a VOEvent segment
  \<open>V\<close> and a text segment \<open>X\<close> whose lengths fit the 4-byte signed length field (so
  that the frame \<open>frame_bytes H V X\<close> exists), a stream that starts with that frame is
  read as exactly \<open>(H, V, X)\<close>, and exactly the frame's bytes are consumed: what
  follows the frame is what the reader still holds.
\<close>

theorem read_frame_roundtrip:
  assumes "length H = bin_len" and "frame_bytes H V X = Some bs"
  shows "fst (read (c\<lparr>reader := bs @ rest\<rparr>)) = Inr (H, V, X) \<and>
         reader (snd (read (c\<lparr>reader := bs @ rest\<rparr>))) = rest"
  using read_frame[OF assms, where c = "c\<lparr>reader := bs @ rest\<rparr>" and rest = rest] by simp

theorem read_frame_roundtrip_witness:
  "length (sample_header 100) = bin_len \<and>
   frame_bytes (sample_header 100) [60, 100, 62] [104, 105] = Some (sample_frame 100 [60, 100, 62]) \<and>
   fst (read (sample_conn (sample_frame 100 [60, 100, 62] @ [7, 8, 9]))) =
     Inr (sample_header 100, [60, 100, 62], [104, 105]) \<and>
   reader (snd (read (sample_conn (sample_frame 100 [60, 100, 62] @ [7, 8, 9])))) = [7, 8, 9]"
proof -
  have h1: "length (sample_header 100) = bin_len"
    by (rule sample_header_length)
  have h2: "frame_bytes (sample_header 100) [60, 100, 62] [104, 105]
              = Some (sample_frame 100 [60, 100, 62])"
    by (rule sample_frame_bytes) simp
  have c: "(sample_conn [])\<lparr>reader := sample_frame 100 [60, 100, 62] @ [7, 8, 9]\<rparr>
             = sample_conn (sample_frame 100 [60, 100, 62] @ [7, 8, 9])"
    by (simp add: sample_conn_def)
  from read_frame_roundtrip[OF h1 h2, where c = "sample_conn []" and rest = "[7, 8, 9]"] h1 h2 show ?thesis
    by (simp only: c simp_thms)
qed

text \<open>
  The handler has one outcome for a stream that ends, not two. A peer that closes
  before sending anything makes \<^verbatim>\<open>readexactly(160)\<close> raise
  \<^verbatim>\<open>IncompleteReadError\<close> with an empty \<^verbatim>\<open>partial\<close>; a peer that closes after the
  160-byte block makes \<^verbatim>\<open>readexactly(4)\<close> raise the same exception, again with an
  empty \<^verbatim>\<open>partial\<close>. Both leave the callback as that exception.
\<close>

theorem stream_end_counterexample:
  "fst (client_connected_cb sample_deps ''peer'' (sample_conn [])) = IncompleteReadError [] 160 \<and>
   fst (client_connected_cb sample_deps ''peer'' (sample_conn (sample_header 100)))
     = IncompleteReadError [] 4"
proof -
  let ?c = "\<lambda>bs. (sample_conn bs)\<lparr>log := log (sample_conn bs) @ [Info_connected ''peer''],
                connected := connected (sample_conn bs) + 1\<rparr>"
  have "process sample_deps (?c []) = (Inl (IncompleteReadError [] 160), (?c [])\<lparr>reader := []\<rparr>)"
    by (simp add: process_def read_def readexactly_def bin_len_def sample_conn_def)
  then have 1: "process_loop sample_deps (?c []) = (IncompleteReadError [] 160, (?c [])\<lparr>reader := []\<rparr>)"
    by (rule process_loop_stop)
  have "process sample_deps (?c (sample_header 100))
      = (Inl (IncompleteReadError [] 4), (?c (sample_header 100))\<lparr>reader := []\<rparr>)"
    by (simp add: process_def read_def read_segment_def readexactly_def bin_len_def int4_size_def
        sample_header_def sample_conn_def)
  then have 2: "process_loop sample_deps (?c (sample_header 100))
      = (IncompleteReadError [] 4, (?c (sample_header 100))\<lparr>reader := []\<rparr>)"
    by (rule process_loop_stop)
  show ?thesis
    using 1 2 by (simp add: client_connected_cb_def Let_def)
qed

text \<open>
  C2, as the code has it. A stream that ends at any proper prefix of a frame, the
  empty prefix included, makes the frame reader raise \<^verbatim>\<open>IncompleteReadError\<close>; the
  handler does not tell a close between notices from a close inside a notice: in
  both cases the loop ends, the exception leaves the callback, and the writer has
  been closed.
\<close>

theorem stream_end_in_frame:
  assumes "length H = bin_len" and "frame_bytes H V X = Some bs" and "k < length bs"
    and "reader c = take k bs"
  shows "(\<exists>p e. fst (read c) = Inl (IncompleteReadError p e)) \<and>
         (\<exists>p e. fst (client_connected_cb d peer c) = IncompleteReadError p e) \<and>
         writer_closed (snd (client_connected_cb d peer c))"
proof -
  let ?c2 = "c\<lparr>log := log c @ [Info_connected peer], connected := connected c + 1\<rparr>"
  from read_frame_prefix[OF assms(1,2) assms(4) assms(3)]
  obtain p e where r: "read c = (Inl (IncompleteReadError p e), c\<lparr>reader := []\<rparr>)"
    by blast
  have "reader ?c2 = take k bs"
    using assms(4) by simp
  from read_frame_prefix[OF assms(1,2) this assms(3)]
  obtain p' e' where r2: "read ?c2 = (Inl (IncompleteReadError p' e'), ?c2\<lparr>reader := []\<rparr>)"
    by blast
  have "process d ?c2 = (Inl (IncompleteReadError p' e'), ?c2\<lparr>reader := []\<rparr>)"
    by (simp add: process_def r2)
  then have "process_loop d ?c2 = (IncompleteReadError p' e', ?c2\<lparr>reader := []\<rparr>)"
    by (rule process_loop_stop)
  then have "fst (client_connected_cb d peer c) = IncompleteReadError p' e'"
    and "writer_closed (snd (client_connected_cb d peer c))"
    by (simp_all add: client_connected_cb_def Let_def)
  with r show ?thesis
    by auto
qed

theorem stream_end_in_frame_witness:
  "length (sample_header 100) = bin_len \<and>
   frame_bytes (sample_header 100) [60, 100, 62] [104, 105] = Some (sample_frame 100 [60, 100, 62]) \<and>
   0 < length (sample_frame 100 [60, 100, 62]) \<and>
   reader (sample_conn []) = take 0 (sample_frame 100 [60, 100, 62]) \<and>
   (\<exists>p e. fst (read (sample_conn [])) = Inl (IncompleteReadError p e)) \<and>
   (\<exists>p e. fst (client_connected_cb sample_deps ''peer'' (sample_conn [])) = IncompleteReadError p e) \<and>
   writer_closed (snd (client_connected_cb sample_deps ''peer'' (sample_conn [])))"
proof -
  have h1: "length (sample_header 100) = bin_len"
    by (rule sample_header_length)
  have h2: "frame_bytes (sample_header 100) [60, 100, 62] [104, 105]
              = Some (sample_frame 100 [60, 100, 62])"
    by (rule sample_frame_bytes) simp
  have h3: "0 < length (sample_frame 100 [60, 100, 62])"
    by (simp add: sample_frame_def)
  have h4: "reader (sample_conn []) = take 0 (sample_frame 100 [60, 100, 62])"
    by (simp add: sample_conn_def)
  from stream_end_in_frame[OF h1 h2 h3 h4, of sample_deps "''peer''"] h1 h2 h3 h4 show ?thesis
    by blast
qed

text \<open>
  The reader puts no bound on a segment's length. Behind the header, the length
  prefix \<^verbatim>\<open>7F FF FF FF\<close> is the largest the field can hold; the reader asks the
  stream for all \<open>2147483647\<close> bytes, and fails only because the stream ends.
\<close>

theorem no_length_cap_counterexample:
  "fst (read (sample_conn (sample_header 100 @ [127, 255, 255, 255])))
     = Inl (IncompleteReadError [] 2147483647)"
  by (simp add: read_def read_segment_def readexactly_def bin_len_def int4_size_def
      int4_unpack_def be_uint_def signed32_def sample_header_def sample_conn_def)

text \<open>
  C9, as the code has it. Whatever non-negative length \<open>n\<close> a VOEvent or text length
  prefix decodes to, the reader requests exactly \<open>n\<close> bytes: when the stream ends
  before that many bytes, the failure is \<^verbatim>\<open>IncompleteReadError\<close> with \<open>n\<close> as the
  expected count and the bytes received so far as \<^verbatim>\<open>partial\<close>. No length is refused
  for its size. The connection is torn down for that reason: the callback ends
  with this exception and the writer closed.
\<close>

theorem read_requests_prefixed_length:
  assumes "length H = bin_len" and "int4_unpack l = Some n" and "0 \<le> n"
    and "length rest < nat n" and "int4_pack (int (length V)) = Some l1"
  shows "fst (read (c\<lparr>reader := H @ l @ rest\<rparr>)) = Inl (IncompleteReadError rest (nat n)) \<and>
         fst (client_connected_cb d peer (c\<lparr>reader := H @ l @ rest\<rparr>))
           = IncompleteReadError rest (nat n) \<and>
         writer_closed (snd (client_connected_cb d peer (c\<lparr>reader := H @ l @ rest\<rparr>))) \<and>
         fst (read (c\<lparr>reader := H @ l1 @ V @ l @ rest\<rparr>))
           = Inl (IncompleteReadError rest (nat n)) \<and>
         fst (client_connected_cb d peer (c\<lparr>reader := H @ l1 @ V @ l @ rest\<rparr>))
           = IncompleteReadError rest (nat n) \<and>
         writer_closed (snd (client_connected_cb d peer (c\<lparr>reader := H @ l1 @ V @ l @ rest\<rparr>)))"
proof -
  let ?a = "c\<lparr>reader := H @ l @ rest\<rparr>" and ?b = "c\<lparr>reader := H @ l1 @ V @ l @ rest\<rparr>"
  have a: "read k = (Inl (IncompleteReadError rest (nat n)), k\<lparr>reader := []\<rparr>)"
    if "reader k = reader ?a" for k
    using read_short_voevent[OF assms(1-4), of k] that by simp
  have b: "read k = (Inl (IncompleteReadError rest (nat n)), k\<lparr>reader := []\<rparr>)"
    if "reader k = reader ?b" for k
    using read_short_text[OF assms(1-5), of k] that by simp
  have "fst (read ?a) = Inl (IncompleteReadError rest (nat n))"
    and "fst (read ?b) = Inl (IncompleteReadError rest (nat n))"
    using a[of ?a] b[of ?b] by simp_all
  moreover
  have "fst (client_connected_cb d peer ?a) = IncompleteReadError rest (nat n) \<and>
        writer_closed (snd (client_connected_cb d peer ?a))"
    by (rule cb_read_error) (rule a)
  moreover
  have "fst (client_connected_cb d peer ?b) = IncompleteReadError rest (nat n) \<and>
        writer_closed (snd (client_connected_cb d peer ?b))"
    by (rule cb_read_error) (rule b)
  ultimately show ?thesis
    by blast
qed

theorem read_requests_prefixed_length_witness:
  "length (sample_header 100) = bin_len \<and> int4_unpack [127, 255, 255, 255] = Some 2147483647 \<and>
   (0 :: int) \<le> 2147483647 \<and> length [1, 2, 3 :: byte] < nat 2147483647 \<and>
   int4_pack (int (length [60, 100, 62 :: byte])) = Some [0, 0, 0, 3] \<and>
   fst (read (sample_conn (sample_header 100 @ [127, 255, 255, 255] @ [1, 2, 3])))
     = Inl (IncompleteReadError [1, 2, 3] (nat 2147483647)) \<and>
   fst (client_connected_cb sample_deps ''peer''
          (sample_conn (sample_header 100 @ [127, 255, 255, 255] @ [1, 2, 3])))
     = IncompleteReadError [1, 2, 3] (nat 2147483647) \<and>
   writer_closed (snd (client_connected_cb sample_deps ''peer''
          (sample_conn (sample_header 100 @ [127, 255, 255, 255] @ [1, 2, 3])))) \<and>
   fst (read (sample_conn (sample_header 100 @ [0, 0, 0, 3] @ [60, 100, 62] @ [127, 255, 255, 255]
                             @ [1, 2, 3])))
     = Inl (IncompleteReadError [1, 2, 3] (nat 2147483647)) \<and>
   fst (client_connected_cb sample_deps ''peer''
          (sample_conn (sample_header 100 @ [0, 0, 0, 3] @ [60, 100, 62] @ [127, 255, 255, 255]
                          @ [1, 2, 3])))
     = IncompleteReadError [1, 2, 3] (nat 2147483647) \<and>
   writer_closed (snd (client_connected_cb sample_deps ''peer''
          (sample_conn (sample_header 100 @ [0, 0, 0, 3] @ [60, 100, 62] @ [127, 255, 255, 255]
                          @ [1, 2, 3]))))"
proof -
  have h1: "length (sample_header 100) = bin_len"
    by (rule sample_header_length)
  have h2: "int4_unpack [127, 255, 255, 255] = Some 2147483647"
    by (simp add: int4_unpack_def int4_size_def be_uint_def signed32_def)
  have h3: "(0 :: int) \<le> 2147483647"
    by simp
  have h4: "length [1, 2, 3 :: byte] < nat 2147483647"
    by simp
  have h5: "int4_pack (int (length [60, 100, 62 :: byte])) = Some [0, 0, 0, 3]"
    by (simp add: int4_pack_def)
  have c: "(sample_conn [])\<lparr>reader := bs\<rparr> = sample_conn bs" for bs
    by (simp add: sample_conn_def)
  from read_requests_prefixed_length[OF h1 h2 h3 h4 h5, of "sample_conn []" sample_deps "''peer''"]
    h1 h2 h3 h4 h5
  show ?thesis
    by (simp only: c simp_thms)
qed

subsection \<open>Heartbeats\<close>

text \<open>
  C4. A frame whose binary type code is in \<open>ignore_notice_types\<close> makes \<open>process\<close>
  return normally with nothing produced, \<^verbatim>\<open>metrics.iamalive\<close> incremented by exactly
  one, no \<^verbatim>\<open>metrics.received\<close> label counted (the other encodings are not
  classified) and no poll, and the handler reads the next frame from the bytes
  behind it. When fewer than 160 bytes follow, the loop and the connection end with
  the \<^verbatim>\<open>IncompleteReadError\<close> of that next read, nothing produced; when a notice
  with a parsed VOEvent and a notice type follows (and then fewer than 160 bytes),
  the connection has produced exactly that notice's three messages.
\<close>

theorem heartbeat_skipped:
  assumes "length H = bin_len" and "frame_bytes H V X = Some bs" and "reader c = bs @ rest"
    and "int4_unpack_from H = Some ty" and "ty \<in> ignore_notice_types d"
  shows "fst (process d c) = Inr () \<and>
         produced (snd (process d c)) = produced c \<and>
         iamalive (snd (process d c)) = iamalive c + 1 \<and>
         received (snd (process d c)) = received c \<and>
         polls (snd (process d c)) = polls c \<and>
         reader (snd (process d c)) = rest \<and>
         process_loop d c = process_loop d (snd (process d c)) \<and>
         (length rest < bin_len \<longrightarrow>
            process_loop d c = (IncompleteReadError rest bin_len, (snd (process d c))\<lparr>reader := []\<rparr>) \<and>
            fst (client_connected_cb d peer c) = IncompleteReadError rest bin_len \<and>
            produced (snd (client_connected_cb d peer c)) = produced c \<and>
            iamalive (snd (client_connected_cb d peer c)) = iamalive c + 1) \<and>
         (\<forall>H2 V2 X2 bs2 rest2 ty2 voe2 vt2.
            length H2 = bin_len \<and> frame_bytes H2 V2 X2 = Some bs2 \<and> rest = bs2 @ rest2 \<and>
            int4_unpack_from H2 = Some ty2 \<and> ty2 \<notin> ignore_notice_types d \<and>
            fromstring d V2 = Some voe2 \<and> get_notice_type d voe2 = Some vt2 \<and>
            length rest2 < bin_len \<longrightarrow>
            fst (client_connected_cb d peer c) = IncompleteReadError rest2 bin_len \<and>
            produced (snd (client_connected_cb d peer c)) = produced c @
              [(topic_for_notice_type_str d (notice_type_int_to_str d ty2) ''binary'', H2),
               (topic_for_notice_type_str d (notice_type_int_to_str d vt2) ''voevent'', V2),
               (topic_for_notice_type_str d (notice_type_int_to_str d ty2) ''text'', X2)])"
proof -
  note p = process_heartbeat[OF assms]
  have a: "fst (process d c) = Inr ()" "produced (snd (process d c)) = produced c"
    "iamalive (snd (process d c)) = iamalive c + 1" "received (snd (process d c)) = received c"
    "polls (snd (process d c)) = polls c" "reader (snd (process d c)) = rest"
    by (simp_all add: p)
  have 1: "process_loop d c = process_loop d (snd (process d c))"
    using process_loop_step[OF p] p by simp
  have 2: "length rest < bin_len \<longrightarrow>
            process_loop d c = (IncompleteReadError rest bin_len, (snd (process d c))\<lparr>reader := []\<rparr>) \<and>
            fst (client_connected_cb d peer c) = IncompleteReadError rest bin_len \<and>
            produced (snd (client_connected_cb d peer c)) = produced c \<and>
            iamalive (snd (client_connected_cb d peer c)) = iamalive c + 1"
  proof
    assume s: "length rest < bin_len"
    have "process_loop d c = (IncompleteReadError rest bin_len, (snd (process d c))\<lparr>reader := []\<rparr>)"
      using heartbeat_then_short[OF assms s] p by simp
    with cb_heartbeat_then_short[OF assms s, of peer] show "process_loop d c =
        (IncompleteReadError rest bin_len, (snd (process d c))\<lparr>reader := []\<rparr>) \<and>
        fst (client_connected_cb d peer c) = IncompleteReadError rest bin_len \<and>
        produced (snd (client_connected_cb d peer c)) = produced c \<and>
        iamalive (snd (client_connected_cb d peer c)) = iamalive c + 1"
      by blast
  qed
  have 3: "\<forall>H2 V2 X2 bs2 rest2 ty2 voe2 vt2.
            length H2 = bin_len \<and> frame_bytes H2 V2 X2 = Some bs2 \<and> rest = bs2 @ rest2 \<and>
            int4_unpack_from H2 = Some ty2 \<and> ty2 \<notin> ignore_notice_types d \<and>
            fromstring d V2 = Some voe2 \<and> get_notice_type d voe2 = Some vt2 \<and>
            length rest2 < bin_len \<longrightarrow>
            fst (client_connected_cb d peer c) = IncompleteReadError rest2 bin_len \<and>
            produced (snd (client_connected_cb d peer c)) = produced c @
              [(topic_for_notice_type_str d (notice_type_int_to_str d ty2) ''binary'', H2),
               (topic_for_notice_type_str d (notice_type_int_to_str d vt2) ''voevent'', V2),
               (topic_for_notice_type_str d (notice_type_int_to_str d ty2) ''text'', X2)]"
    by (intro allI impI, elim conjE) (rule cb_heartbeat_then_notice[OF assms]; assumption)
  from a 1 2 3 show ?thesis
    by blast
qed

theorem heartbeat_skipped_witness:
  "length (sample_header 3) = bin_len \<and>
   frame_bytes (sample_header 3) [60, 3, 62] [104, 105] = Some (sample_frame 3 [60, 3, 62]) \<and>
   reader (sample_conn (sample_frame 3 [60, 3, 62] @ [9])) = sample_frame 3 [60, 3, 62] @ [9] \<and>
   int4_unpack_from (sample_header 3) = Some 3 \<and>
   3 \<in> ignore_notice_types sample_deps \<and>
   fst (process sample_deps (sample_conn (sample_frame 3 [60, 3, 62] @ [9]))) = Inr () \<and>
   produced (snd (process sample_deps (sample_conn (sample_frame 3 [60, 3, 62] @ [9])))) = [] \<and>
   iamalive (snd (process sample_deps (sample_conn (sample_frame 3 [60, 3, 62] @ [9])))) = 1 \<and>
   received (snd (process sample_deps (sample_conn (sample_frame 3 [60, 3, 62] @ [9]))))
     = (\<lambda>k. 0) \<and>
   polls (snd (process sample_deps (sample_conn (sample_frame 3 [60, 3, 62] @ [9])))) = 0 \<and>
   reader (snd (process sample_deps (sample_conn (sample_frame 3 [60, 3, 62] @ [9])))) = [9] \<and>
   length [9 :: byte] < bin_len \<and>
   fst (process_loop sample_deps (sample_conn (sample_frame 3 [60, 3, 62] @ [9])))
     = IncompleteReadError [9] bin_len \<and>
   fst (client_connected_cb sample_deps ''peer'' (sample_conn (sample_frame 3 [60, 3, 62] @ [9])))
     = IncompleteReadError [9] bin_len \<and>
   produced (snd (client_connected_cb sample_deps ''peer''
                    (sample_conn (sample_frame 3 [60, 3, 62] @ [9])))) = [] \<and>
   iamalive (snd (client_connected_cb sample_deps ''peer''
                    (sample_conn (sample_frame 3 [60, 3, 62] @ [9])))) = 1 \<and>
   reader (sample_conn (sample_frame 3 [60, 3, 62] @ sample_frame 100 [60, 101, 62] @ [9]))
     = sample_frame 3 [60, 3, 62] @ sample_frame 100 [60, 101, 62] @ [9] \<and>
   length (sample_header 100) = bin_len \<and>
   frame_bytes (sample_header 100) [60, 101, 62] [104, 105]
     = Some (sample_frame 100 [60, 101, 62]) \<and>
   int4_unpack_from (sample_header 100) = Some 100 \<and>
   100 \<notin> ignore_notice_types sample_deps \<and>
   fromstring sample_deps [60, 101, 62] = Some (Some 101) \<and>
   get_notice_type sample_deps (Some 101) = Some 101 \<and>
   fst (client_connected_cb sample_deps ''peer''
          (sample_conn (sample_frame 3 [60, 3, 62] @ sample_frame 100 [60, 101, 62] @ [9])))
     = IncompleteReadError [9] bin_len \<and>
   produced (snd (client_connected_cb sample_deps ''peer''
          (sample_conn (sample_frame 3 [60, 3, 62] @ sample_frame 100 [60, 101, 62] @ [9])))) =
     [(''gcn.classic.binary.N100'', sample_header 100),
      (''gcn.classic.voevent.N101'', [60, 101, 62]),
      (''gcn.classic.text.N100'', [104, 105])]"
proof -
  let ?f1 = "sample_frame 3 [60, 3, 62]" and ?f2 = "sample_frame 100 [60, 101, 62]"
  have h1: "length (sample_header 3) = bin_len"
    by (rule sample_header_length)
  have h2: "frame_bytes (sample_header 3) [60, 3, 62] [104, 105] = Some ?f1"
    by (rule sample_frame_bytes) simp
  have h3: "reader (sample_conn (?f1 @ [9])) = ?f1 @ [9]"
    by (simp add: sample_conn_def)
  have h4: "int4_unpack_from (sample_header 3) = Some 3"
    using sample_header_type[of 3] by simp
  have h5: "3 \<in> ignore_notice_types sample_deps"
    by (simp add: ignore_notice_types_def sample_deps_def)
  have s: "produced (sample_conn bs) = []" "iamalive (sample_conn bs) = 0"
    "received (sample_conn bs) = (\<lambda>k. 0)" "polls (sample_conn bs) = 0" for bs
    by (simp_all add: sample_conn_def)
  have k0: "length [9 :: byte] < bin_len"
    by (simp add: bin_len_def)
  have g3: "reader (sample_conn (?f1 @ ?f2 @ [9])) = ?f1 @ ?f2 @ [9]"
    by (simp add: sample_conn_def)
  have k1: "length (sample_header 100) = bin_len"
    by (rule sample_header_length)
  have k2: "frame_bytes (sample_header 100) [60, 101, 62] [104, 105] = Some ?f2"
    by (rule sample_frame_bytes) simp
  have k4: "int4_unpack_from (sample_header 100) = Some 100"
    using sample_header_type[of 100] by simp
  have k5: "100 \<notin> ignore_notice_types sample_deps"
    by (simp add: ignore_notice_types_def sample_deps_def)
  have k6: "fromstring sample_deps [60, 101, 62] = Some (Some 101)"
    by (simp add: sample_deps_def)
  have k7: "get_notice_type sample_deps (Some 101) = Some 101"
    by (simp add: sample_deps_def)
  have n: "notice_type_int_to_str sample_deps 100 = ''N100''"
    "notice_type_int_to_str sample_deps 101 = ''N101''"
    "topic_for_notice_type_str sample_deps a b = ''gcn.classic.'' @ b @ ''.'' @ a" for a b
    by (simp_all add: sample_deps_def)
  let ?c = "sample_conn (?f1 @ [9])" and ?c' = "sample_conn (?f1 @ ?f2 @ [9])"
  have "fst (process sample_deps ?c) = Inr () \<and>
     produced (snd (process sample_deps ?c)) = produced ?c \<and>
     iamalive (snd (process sample_deps ?c)) = iamalive ?c + 1 \<and>
     received (snd (process sample_deps ?c)) = received ?c \<and>
     polls (snd (process sample_deps ?c)) = polls ?c \<and>
     reader (snd (process sample_deps ?c)) = [9] \<and>
     process_loop sample_deps ?c
       = (IncompleteReadError [9] bin_len, (snd (process sample_deps ?c))\<lparr>reader := []\<rparr>) \<and>
     fst (client_connected_cb sample_deps ''peer'' ?c) = IncompleteReadError [9] bin_len \<and>
     produced (snd (client_connected_cb sample_deps ''peer'' ?c)) = produced ?c \<and>
     iamalive (snd (client_connected_cb sample_deps ''peer'' ?c)) = iamalive ?c + 1"
    using heartbeat_skipped[OF h1 h2 h3 h4 h5, of "''peer''"] k0 by blast
  then have A: "fst (process sample_deps ?c) = Inr () \<and>
     produced (snd (process sample_deps ?c)) = [] \<and>
     iamalive (snd (process sample_deps ?c)) = 1 \<and>
     received (snd (process sample_deps ?c)) = (\<lambda>k. 0) \<and>
     polls (snd (process sample_deps ?c)) = 0 \<and>
     reader (snd (process sample_deps ?c)) = [9] \<and>
     fst (process_loop sample_deps ?c) = IncompleteReadError [9] bin_len \<and>
     fst (client_connected_cb sample_deps ''peer'' ?c) = IncompleteReadError [9] bin_len \<and>
     produced (snd (client_connected_cb sample_deps ''peer'' ?c)) = [] \<and>
     iamalive (snd (client_connected_cb sample_deps ''peer'' ?c)) = 1"
    by (simp add: s)
  have "fst (client_connected_cb sample_deps ''peer'' ?c') = IncompleteReadError [9] bin_len \<and>
     produced (snd (client_connected_cb sample_deps ''peer'' ?c')) = produced ?c' @
       [(topic_for_notice_type_str sample_deps (notice_type_int_to_str sample_deps 100) ''binary'',
         sample_header 100),
        (topic_for_notice_type_str sample_deps (notice_type_int_to_str sample_deps 101) ''voevent'',
         [60, 101, 62]),
        (topic_for_notice_type_str sample_deps (notice_type_int_to_str sample_deps 100) ''text'',
         [104, 105])]"
    using heartbeat_skipped[OF h1 h2 g3 h4 h5, of "''peer''"] k0 k1 k2 k4 k5 k6 k7 by blast
  then have B: "fst (client_connected_cb sample_deps ''peer'' ?c') = IncompleteReadError [9] bin_len \<and>
     produced (snd (client_connected_cb sample_deps ''peer'' ?c')) =
       [(''gcn.classic.binary.N100'', sample_header 100),
        (''gcn.classic.voevent.N101'', [60, 101, 62]),
        (''gcn.classic.text.N100'', [104, 105])]"
    by (simp add: s n)
  from A B h1 h2 h3 h4 h5 k0 g3 k1 k2 k4 k5 k6 k7 show ?thesis
    by blast
qed

text \<open>
  C10. For a frame whose binary type code is in \<open>ignore_notice_types\<close>, \<open>process\<close>
  returns before \<^verbatim>\<open>lxml.etree.fromstring\<close>: its result is the same for every parser,
  so a VOEvent segment that the parser rejects does not raise. The connection goes
  on to the next frame: when fewer than 160 bytes follow, it ends with the
  \<^verbatim>\<open>IncompleteReadError\<close> of the next read and not with the parser's exception; when
  a notice with a parsed VOEvent and a notice type follows (and then fewer than 160
  bytes), the connection produces that notice's three messages.
\<close>

theorem heartbeat_voevent_not_parsed:
  assumes "length H = bin_len" and "frame_bytes H V X = Some bs" and "reader c = bs @ rest"
    and "int4_unpack_from H = Some ty" and "ty \<in> ignore_notice_types d"
    and "fromstring d V = None"
  shows "fst (process d c) = Inr () \<and>
         (\<forall>f. process (d\<lparr>fromstring := f\<rparr>) c = process d c) \<and>
         process_loop d c = process_loop d (c\<lparr>reader := rest, iamalive := iamalive c + 1,
           log := log c @ [Debug_read bin_len (int (length V)) (int (length X)),
                           Info_received ty]\<rparr>) \<and>
         (length rest < bin_len \<longrightarrow>
            fst (client_connected_cb d peer c) = IncompleteReadError rest bin_len \<and>
            produced (snd (client_connected_cb d peer c)) = produced c) \<and>
         (\<forall>H2 V2 X2 bs2 rest2 ty2 voe2 vt2.
            length H2 = bin_len \<and> frame_bytes H2 V2 X2 = Some bs2 \<and> rest = bs2 @ rest2 \<and>
            int4_unpack_from H2 = Some ty2 \<and> ty2 \<notin> ignore_notice_types d \<and>
            fromstring d V2 = Some voe2 \<and> get_notice_type d voe2 = Some vt2 \<and>
            length rest2 < bin_len \<longrightarrow>
            fst (client_connected_cb d peer c) = IncompleteReadError rest2 bin_len \<and>
            produced (snd (client_connected_cb d peer c)) = produced c @
              [(topic_for_notice_type_str d (notice_type_int_to_str d ty2) ''binary'', H2),
               (topic_for_notice_type_str d (notice_type_int_to_str d vt2) ''voevent'', V2),
               (topic_for_notice_type_str d (notice_type_int_to_str d ty2) ''text'', X2)])"
proof -
  note hb = assms(1-5)
  have p: "process (d\<lparr>fromstring := f\<rparr>) c = (Inr (),
      c\<lparr>reader := rest, iamalive := iamalive c + 1,
        log := log c @ [Debug_read bin_len (int (length V)) (int (length X)), Info_received ty]\<rparr>)"
    for f
    using read_frame[OF assms(1-3)] assms(4,5) by (simp add: process_def ignore_notice_types_def)
  note q = process_heartbeat[OF hb]
  have 1: "fst (process d c) = Inr ()"
    by (simp add: q)
  have 2: "\<forall>f. process (d\<lparr>fromstring := f\<rparr>) c = process d c"
    by (simp add: p q)
  note 3 = process_loop_step[OF q]
  have 4: "length rest < bin_len \<longrightarrow>
            fst (client_connected_cb d peer c) = IncompleteReadError rest bin_len \<and>
            produced (snd (client_connected_cb d peer c)) = produced c"
    using cb_heartbeat_then_short[OF hb, of peer] by blast
  have 5: "\<forall>H2 V2 X2 bs2 rest2 ty2 voe2 vt2.
            length H2 = bin_len \<and> frame_bytes H2 V2 X2 = Some bs2 \<and> rest = bs2 @ rest2 \<and>
            int4_unpack_from H2 = Some ty2 \<and> ty2 \<notin> ignore_notice_types d \<and>
            fromstring d V2 = Some voe2 \<and> get_notice_type d voe2 = Some vt2 \<and>
            length rest2 < bin_len \<longrightarrow>
            fst (client_connected_cb d peer c) = IncompleteReadError rest2 bin_len \<and>
            produced (snd (client_connected_cb d peer c)) = produced c @
              [(topic_for_notice_type_str d (notice_type_int_to_str d ty2) ''binary'', H2),
               (topic_for_notice_type_str d (notice_type_int_to_str d vt2) ''voevent'', V2),
               (topic_for_notice_type_str d (notice_type_int_to_str d ty2) ''text'', X2)]"
    by (intro allI impI, elim conjE) (rule cb_heartbeat_then_notice[OF hb]; assumption)
  from 1 2 3 4 5 show ?thesis
    by blast
qed

theorem heartbeat_voevent_not_parsed_witness:
  "length (sample_header 3) = bin_len \<and>
   frame_bytes (sample_header 3) [60, 3, 47] [104, 105] = Some (sample_frame 3 [60, 3, 47]) \<and>
   reader (sample_conn (sample_frame 3 [60, 3, 47])) = sample_frame 3 [60, 3, 47] @ [] \<and>
   int4_unpack_from (sample_header 3) = Some 3 \<and>
   3 \<in> ignore_notice_types sample_deps \<and>
   fromstring sample_deps [60, 3, 47] = None \<and>
   fst (process sample_deps (sample_conn (sample_frame 3 [60, 3, 47]))) = Inr () \<and>
   (\<forall>f. process (sample_deps\<lparr>fromstring := f\<rparr>) (sample_conn (sample_frame 3 [60, 3, 47]))
        = process sample_deps (sample_conn (sample_frame 3 [60, 3, 47]))) \<and>
   process_loop sample_deps (sample_conn (sample_frame 3 [60, 3, 47]))
     = process_loop sample_deps ((sample_conn (sample_frame 3 [60, 3, 47]))
         \<lparr>reader := [], iamalive := 1, log := [Debug_read bin_len 3 2, Info_received 3]\<rparr>) \<and>
   length ([] :: bytes) < bin_len \<and>
   fst (client_connected_cb sample_deps ''peer'' (sample_conn (sample_frame 3 [60, 3, 47])))
     = IncompleteReadError [] bin_len \<and>
   produced (snd (client_connected_cb sample_deps ''peer''
                    (sample_conn (sample_frame 3 [60, 3, 47])))) = [] \<and>
   reader (sample_conn (sample_frame 3 [60, 3, 47] @ sample_frame 100 [60, 100, 62] @ []))
     = sample_frame 3 [60, 3, 47] @ sample_frame 100 [60, 100, 62] @ [] \<and>
   length (sample_header 100) = bin_len \<and>
   frame_bytes (sample_header 100) [60, 100, 62] [104, 105]
     = Some (sample_frame 100 [60, 100, 62]) \<and>
   int4_unpack_from (sample_header 100) = Some 100 \<and>
   100 \<notin> ignore_notice_types sample_deps \<and>
   fromstring sample_deps [60, 100, 62] = Some (Some 100) \<and>
   get_notice_type sample_deps (Some 100) = Some 100 \<and>
   fst (client_connected_cb sample_deps ''peer''
          (sample_conn (sample_frame 3 [60, 3, 47] @ sample_frame 100 [60, 100, 62] @ [])))
     = IncompleteReadError [] bin_len \<and>
   produced (snd (client_connected_cb sample_deps ''peer''
          (sample_conn (sample_frame 3 [60, 3, 47] @ sample_frame 100 [60, 100, 62] @ [])))) =
     [(''gcn.classic.binary.N100'', sample_header 100),
      (''gcn.classic.voevent.N100'', [60, 100, 62]),
      (''gcn.classic.text.N100'', [104, 105])]"
proof -
  let ?f1 = "sample_frame 3 [60, 3, 47]" and ?f2 = "sample_frame 100 [60, 100, 62]"
  let ?c = "sample_conn ?f1" and ?c' = "sample_conn (?f1 @ ?f2 @ [])"
  have h1: "length (sample_header 3) = bin_len"
    by (rule sample_header_length)
  have h2: "frame_bytes (sample_header 3) [60, 3, 47] [104, 105] = Some ?f1"
    by (rule sample_frame_bytes) simp
  have h3: "reader ?c = ?f1 @ []"
    by (simp add: sample_conn_def)
  have h4: "int4_unpack_from (sample_header 3) = Some 3"
    using sample_header_type[of 3] by simp
  have h5: "3 \<in> ignore_notice_types sample_deps"
    by (simp add: ignore_notice_types_def sample_deps_def)
  have h6: "fromstring sample_deps [60, 3, 47] = None"
    by (simp add: sample_deps_def)
  have s: "iamalive (sample_conn bs) = 0" "log (sample_conn bs) = []"
    "produced (sample_conn bs) = []" for bs
    by (simp_all add: sample_conn_def)
  have k0: "length ([] :: bytes) < bin_len"
    by (simp add: bin_len_def)
  have g3: "reader ?c' = ?f1 @ ?f2 @ []"
    by (simp add: sample_conn_def)
  have k1: "length (sample_header 100) = bin_len"
    by (rule sample_header_length)
  have k2: "frame_bytes (sample_header 100) [60, 100, 62] [104, 105] = Some ?f2"
    by (rule sample_frame_bytes) simp
  have k4: "int4_unpack_from (sample_header 100) = Some 100"
    using sample_header_type[of 100] by simp
  have k5: "100 \<notin> ignore_notice_types sample_deps"
    by (simp add: ignore_notice_types_def sample_deps_def)
  have k6: "fromstring sample_deps [60, 100, 62] = Some (Some 100)"
    by (simp add: sample_deps_def)
  have k7: "get_notice_type sample_deps (Some 100) = Some 100"
    by (simp add: sample_deps_def)
  have n: "notice_type_int_to_str sample_deps 100 = ''N100''"
    "topic_for_notice_type_str sample_deps a b = ''gcn.classic.'' @ b @ ''.'' @ a" for a b
    by (simp_all add: sample_deps_def)
  have "fst (process sample_deps ?c) = Inr () \<and>
     (\<forall>f. process (sample_deps\<lparr>fromstring := f\<rparr>) ?c = process sample_deps ?c) \<and>
     process_loop sample_deps ?c = process_loop sample_deps (?c\<lparr>reader := [],
        iamalive := iamalive ?c + 1,
        log := log ?c @ [Debug_read bin_len (int (length [60, 3, 47 :: byte]))
                           (int (length [104, 105 :: byte])), Info_received 3]\<rparr>) \<and>
     fst (client_connected_cb sample_deps ''peer'' ?c) = IncompleteReadError [] bin_len \<and>
     produced (snd (client_connected_cb sample_deps ''peer'' ?c)) = produced ?c"
    using heartbeat_voevent_not_parsed[OF h1 h2 h3 h4 h5 h6, of "''peer''"] k0 by blast
  then have A: "fst (process sample_deps ?c) = Inr () \<and>
     (\<forall>f. process (sample_deps\<lparr>fromstring := f\<rparr>) ?c = process sample_deps ?c) \<and>
     process_loop sample_deps ?c = process_loop sample_deps (?c\<lparr>reader := [],
        iamalive := 1, log := [Debug_read bin_len 3 2, Info_received 3]\<rparr>) \<and>
     fst (client_connected_cb sample_deps ''peer'' ?c) = IncompleteReadError [] bin_len \<and>
     produced (snd (client_connected_cb sample_deps ''peer'' ?c)) = []"
    by (simp add: s)
  have "fst (client_connected_cb sample_deps ''peer'' ?c') = IncompleteReadError [] bin_len \<and>
     produced (snd (client_connected_cb sample_deps ''peer'' ?c')) = produced ?c' @
       [(topic_for_notice_type_str sample_deps (notice_type_int_to_str sample_deps 100) ''binary'',
         sample_header 100),
        (topic_for_notice_type_str sample_deps (notice_type_int_to_str sample_deps 100) ''voevent'',
         [60, 100, 62]),
        (topic_for_notice_type_str sample_deps (notice_type_int_to_str sample_deps 100) ''text'',
         [104, 105])]"
    using heartbeat_voevent_not_parsed[OF h1 h2 g3 h4 h5 h6, of "''peer''"] k0 k1 k2 k4 k5 k6 k7
    by blast
  then have B: "fst (client_connected_cb sample_deps ''peer'' ?c') = IncompleteReadError [] bin_len \<and>
     produced (snd (client_connected_cb sample_deps ''peer'' ?c')) =
       [(''gcn.classic.binary.N100'', sample_header 100),
        (''gcn.classic.voevent.N100'', [60, 100, 62]),
        (''gcn.classic.text.N100'', [104, 105])]"
    by (simp add: s n)
  from A B h1 h2 h3 h4 h5 h6 k0 g3 k1 k2 k4 k5 k6 k7 show ?thesis
    by blast
qed

text \<open>
  \<^verbatim>\<open>metrics.iamalive.inc()\<close> stands right behind the read, before the type code is
  decoded, so it counts frames of every type. Here a frame of type 100, which is
  not in \<open>ignore_notice_types\<close>, is read from a connection whose counter is 0, and
  the counter is 1 afterwards.
\<close>

theorem iamalive_counts_every_frame:
  "int4_unpack_from (sample_header 100) = Some 100 \<and>
   100 \<notin> ignore_notice_types sample_deps \<and>
   fst (read (sample_conn (sample_frame 100 [60, 100, 62])))
     = Inr (sample_header 100, [60, 100, 62], [104, 105]) \<and>
   iamalive (sample_conn (sample_frame 100 [60, 100, 62])) = 0 \<and>
   iamalive (snd (process sample_deps (sample_conn (sample_frame 100 [60, 100, 62])))) = 1"
proof -
  have h1: "length (sample_header 100) = bin_len"
    by (rule sample_header_length)
  have h2: "frame_bytes (sample_header 100) [60, 100, 62] [104, 105]
              = Some (sample_frame 100 [60, 100, 62])"
    by (rule sample_frame_bytes) simp
  have h3: "reader (sample_conn (sample_frame 100 [60, 100, 62])) = sample_frame 100 [60, 100, 62] @ []"
    by (simp add: sample_conn_def)
  have h4: "int4_unpack_from (sample_header 100) = Some 100"
    using sample_header_type[of 100] by simp
  have h5: "100 \<notin> ignore_notice_types sample_deps"
    by (simp add: ignore_notice_types_def sample_deps_def)
  have h6: "fromstring sample_deps [60, 100, 62] = Some (Some 100)"
    by (simp add: sample_deps_def)
  have h7: "get_notice_type sample_deps (Some 100) = Some 100"
    by (simp add: sample_deps_def)
  have "iamalive (snd (process sample_deps (sample_conn (sample_frame 100 [60, 100, 62]))))
      = iamalive (sample_conn (sample_frame 100 [60, 100, 62])) + 1"
    using read_frame[OF h1 h2 h3] h4 h5 h6 h7
    by (simp add: process_def produce_flavor_def Let_def)
  with read_frame[OF h1 h2 h3] h4 h5 show ?thesis
    by (simp add: sample_conn_def)
qed

text \<open>
  C5, as the code has it. \<^verbatim>\<open>metrics.iamalive\<close> counts the frames read: every frame
  that is read increments it by exactly one, whether its binary type code is in
  \<open>ignore_notice_types\<close> or not, and whatever \<open>process\<close> does with the frame
  afterwards.
\<close>

theorem iamalive_incremented_per_frame:
  assumes "length H = bin_len" and "frame_bytes H V X = Some bs" and "reader c = bs @ rest"
  shows "fst (read c) = Inr (H, V, X) \<and> iamalive (snd (process d c)) = iamalive c + 1"
  using read_frame[OF assms] header_type[OF assms(1)]
  by (simp add: process_def produce_flavor_def Let_def split: option.splits)

theorem iamalive_incremented_per_frame_witness:
  "length (sample_header 100) = bin_len \<and>
   frame_bytes (sample_header 100) [60, 100, 62] [104, 105] = Some (sample_frame 100 [60, 100, 62]) \<and>
   reader (sample_conn (sample_frame 100 [60, 100, 62] @ [9])) = sample_frame 100 [60, 100, 62] @ [9] \<and>
   fst (read (sample_conn (sample_frame 100 [60, 100, 62] @ [9])))
     = Inr (sample_header 100, [60, 100, 62], [104, 105]) \<and>
   iamalive (snd (process sample_deps (sample_conn (sample_frame 100 [60, 100, 62] @ [9])))) = 1"
proof -
  have h1: "length (sample_header 100) = bin_len"
    by (rule sample_header_length)
  have h2: "frame_bytes (sample_header 100) [60, 100, 62] [104, 105]
              = Some (sample_frame 100 [60, 100, 62])"
    by (rule sample_frame_bytes) simp
  have h3: "reader (sample_conn (sample_frame 100 [60, 100, 62] @ [9]))
              = sample_frame 100 [60, 100, 62] @ [9]"
    by (simp add: sample_conn_def)
  have s: "iamalive (sample_conn bs) = 0" for bs
    by (simp add: sample_conn_def)
  from iamalive_incremented_per_frame[OF h1 h2 h3, of sample_deps] h1 h2 h3 show ?thesis
    by (simp add: s)
qed

subsection \<open>Malformed VOEvent and differing notice types\<close>

text \<open>
  C6. A frame whose binary type code is not in \<open>ignore_notice_types\<close> and whose
  VOEvent segment the parser rejects makes \<open>process\<close> raise the parser's exception
  with nothing produced for the notice. The loop ends there with that exception
  (no skip, no second attempt), and a connection whose first frame it is ends with
  it, nothing produced and the writer closed.
\<close>

theorem malformed_voevent_closes:
  assumes "length H = bin_len" and "frame_bytes H V X = Some bs" and "reader c = bs @ rest"
    and "int4_unpack_from H = Some ty" and "ty \<notin> ignore_notice_types d"
    and "fromstring d V = None"
  shows "fst (process d c) = Inl XMLSyntaxError \<and>
         produced (snd (process d c)) = produced c \<and>
         process_loop d c = (XMLSyntaxError, snd (process d c)) \<and>
         fst (client_connected_cb d peer c) = XMLSyntaxError \<and>
         produced (snd (client_connected_cb d peer c)) = produced c \<and>
         writer_closed (snd (client_connected_cb d peer c))"
proof -
  have p: "process d k = (Inl XMLSyntaxError,
      k\<lparr>reader := rest, iamalive := iamalive k + 1,
        log := log k @ [Debug_read bin_len (int (length V)) (int (length X)), Info_received ty]\<rparr>)"
    if "reader k = bs @ rest" for k
    using read_frame[OF assms(1,2) that] assms(4-6) by (simp add: process_def)
  let ?c2 = "c\<lparr>log := log c @ [Info_connected peer], connected := connected c + 1\<rparr>"
  have "reader ?c2 = bs @ rest"
    using assms(3) by simp
  from process_loop_stop[OF p[OF this]]
  have "fst (client_connected_cb d peer c) = XMLSyntaxError"
    and "produced (snd (client_connected_cb d peer c)) = produced c"
    and "writer_closed (snd (client_connected_cb d peer c))"
    by (simp_all add: client_connected_cb_def Let_def)
  with process_loop_stop[OF p[OF assms(3)]] p[OF assms(3)] show ?thesis
    by simp
qed

theorem malformed_voevent_closes_witness:
  "length (sample_header 100) = bin_len \<and>
   frame_bytes (sample_header 100) [60, 100, 47] [104, 105] = Some (sample_frame 100 [60, 100, 47]) \<and>
   reader (sample_conn (sample_frame 100 [60, 100, 47])) = sample_frame 100 [60, 100, 47] @ [] \<and>
   int4_unpack_from (sample_header 100) = Some 100 \<and>
   100 \<notin> ignore_notice_types sample_deps \<and>
   fromstring sample_deps [60, 100, 47] = None \<and>
   fst (process sample_deps (sample_conn (sample_frame 100 [60, 100, 47]))) = Inl XMLSyntaxError \<and>
   produced (snd (process sample_deps (sample_conn (sample_frame 100 [60, 100, 47])))) = [] \<and>
   process_loop sample_deps (sample_conn (sample_frame 100 [60, 100, 47]))
     = (XMLSyntaxError, snd (process sample_deps (sample_conn (sample_frame 100 [60, 100, 47])))) \<and>
   fst (client_connected_cb sample_deps ''peer'' (sample_conn (sample_frame 100 [60, 100, 47])))
     = XMLSyntaxError \<and>
   produced (snd (client_connected_cb sample_deps ''peer''
                    (sample_conn (sample_frame 100 [60, 100, 47])))) = [] \<and>
   writer_closed (snd (client_connected_cb sample_deps ''peer''
                         (sample_conn (sample_frame 100 [60, 100, 47]))))"
proof -
  have h1: "length (sample_header 100) = bin_len"
    by (rule sample_header_length)
  have h2: "frame_bytes (sample_header 100) [60, 100, 47] [104, 105]
              = Some (sample_frame 100 [60, 100, 47])"
    by (rule sample_frame_bytes) simp
  have h3: "reader (sample_conn (sample_frame 100 [60, 100, 47])) = sample_frame 100 [60, 100, 47] @ []"
    by (simp add: sample_conn_def)
  have h4: "int4_unpack_from (sample_header 100) = Some 100"
    using sample_header_type[of 100] by simp
  have h5: "100 \<notin> ignore_notice_types sample_deps"
    by (simp add: ignore_notice_types_def sample_deps_def)
  have h6: "fromstring sample_deps [60, 100, 47] = None"
    by (simp add: sample_deps_def)
  have s: "produced (sample_conn bs) = []" for bs
    by (simp add: sample_conn_def)
  from malformed_voevent_closes[OF h1 h2 h3 h4 h5 h6, of "''peer''"] h1 h2 h3 h4 h5 h6
  show ?thesis
    by (simp add: s)
qed

text \<open>
  C7. When the type code of the binary block and the one taken from the parsed
  VOEvent differ, \<open>process\<close> still returns normally: the warning is logged, the
  binary and the text segment go to the topics of the binary code's name, and the
  VOEvent segment to the topic of the name of the code taken from the document.
\<close>

theorem type_mismatch_routing:
  assumes "length H = bin_len" and "frame_bytes H V X = Some bs" and "reader c = bs @ rest"
    and "int4_unpack_from H = Some ty" and "ty \<notin> ignore_notice_types d"
    and "fromstring d V = Some voe" and "get_notice_type d voe = Some vt" and "ty \<noteq> vt"
  shows "fst (process d c) = Inr () \<and>
         log (snd (process d c)) = log c @
           [Debug_read bin_len (int (length V)) (int (length X)), Info_received ty,
            Warning_differ ty vt] \<and>
         produced (snd (process d c)) = produced c @
           [(topic_for_notice_type_str d (notice_type_int_to_str d ty) ''binary'', H),
            (topic_for_notice_type_str d (notice_type_int_to_str d vt) ''voevent'', V),
            (topic_for_notice_type_str d (notice_type_int_to_str d ty) ''text'', X)]"
  using read_frame[OF assms(1-3)] assms(4-8)
  by (simp add: process_def produce_flavor_def Let_def)

theorem type_mismatch_routing_witness:
  "length (sample_header 100) = bin_len \<and>
   frame_bytes (sample_header 100) [60, 101, 62] [104, 105] = Some (sample_frame 100 [60, 101, 62]) \<and>
   reader (sample_conn (sample_frame 100 [60, 101, 62])) = sample_frame 100 [60, 101, 62] @ [] \<and>
   int4_unpack_from (sample_header 100) = Some 100 \<and>
   100 \<notin> ignore_notice_types sample_deps \<and>
   fromstring sample_deps [60, 101, 62] = Some (Some 101) \<and>
   get_notice_type sample_deps (Some 101) = Some 101 \<and> (100 :: int) \<noteq> 101 \<and>
   fst (process sample_deps (sample_conn (sample_frame 100 [60, 101, 62]))) = Inr () \<and>
   log (snd (process sample_deps (sample_conn (sample_frame 100 [60, 101, 62])))) =
     [Debug_read bin_len 3 2, Info_received 100, Warning_differ 100 101] \<and>
   produced (snd (process sample_deps (sample_conn (sample_frame 100 [60, 101, 62])))) =
     [(''gcn.classic.binary.N100'', sample_header 100),
      (''gcn.classic.voevent.N101'', [60, 101, 62]),
      (''gcn.classic.text.N100'', [104, 105])]"
proof -
  have h1: "length (sample_header 100) = bin_len"
    by (rule sample_header_length)
  have h2: "frame_bytes (sample_header 100) [60, 101, 62] [104, 105]
              = Some (sample_frame 100 [60, 101, 62])"
    by (rule sample_frame_bytes) simp
  have h3: "reader (sample_conn (sample_frame 100 [60, 101, 62])) = sample_frame 100 [60, 101, 62] @ []"
    by (simp add: sample_conn_def)
  have h4: "int4_unpack_from (sample_header 100) = Some 100"
    using sample_header_type[of 100] by simp
  have h5: "100 \<notin> ignore_notice_types sample_deps"
    by (simp add: ignore_notice_types_def sample_deps_def)
  have h6: "fromstring sample_deps [60, 101, 62] = Some (Some 101)"
    by (simp add: sample_deps_def)
  have h7: "get_notice_type sample_deps (Some 101) = Some 101"
    by (simp add: sample_deps_def)
  have h8: "(100 :: int) \<noteq> 101"
    by simp
  from type_mismatch_routing[OF h1 h2 h3 h4 h5 h6 h7 h8] h1 h2 h3 h4 h5 h6 h7
  show ?thesis
    by (simp add: sample_deps_def sample_conn_def)
qed

end
